theory Spec2Isabelle
  imports Main "HOL-Library.Word"
begin

unbundle bit_operations_syntax

section \<open>OnigurumaRegExEngine.cxx: the regular-expression engine of the editor\<close>

text \<open>
  The development follows \<^verbatim>\<open>src/scintilla/oniguruma/scintilla/OnigurumaRegExEngine.cxx\<close>.
  A \<^verbatim>\<open>std::string\<close> is a \<^typ>\<open>string\<close> (a list of bytes, embedded zero bytes
  included), a \<^verbatim>\<open>Sci::Position\<close> is an \<^typ>\<open>int\<close>, an \<^verbatim>\<open>OnigOptionType\<close>
  (an \<^verbatim>\<open>unsigned int\<close>) is a 32-bit word, a \<^verbatim>\<open>size_t\<close> index is a \<^typ>\<open>nat\<close>.
\<close>

subsection \<open>Characters and strings\<close>

abbreviation BSL :: char where "BSL \<equiv> CHR 0x5C"
abbreviation NUL :: char where "NUL \<equiv> CHR 0x00"

text \<open>\<^verbatim>\<open>s[i]\<close> of a \<^verbatim>\<open>std::string\<close>: the byte at \<open>i\<close>, and the terminating zero at
  \<open>i = s.length()\<close>. The source never reads further (each read of \<open>j + 2\<close> is guarded by a
  test on \<open>j + 1\<close> that the terminator fails).\<close>

definition at :: "string \<Rightarrow> nat \<Rightarrow> char" where
  "at s i = (if i < length s then s ! i else NUL)"

text \<open>\<^verbatim>\<open>(ch >= '0') && (ch <= '9')\<close>.\<close>

definition is_digit :: "char \<Rightarrow> bool" where
  "is_digit ch = (48 \<le> (of_char ch :: nat) \<and> (of_char ch :: nat) \<le> 57)"

text \<open>\<^verbatim>\<open>ch - '0'\<close> for a digit.\<close>

definition digit_val :: "char \<Rightarrow> int" where
  "digit_val ch = int (of_char ch) - 48"

text \<open>\<^verbatim>\<open>IsOctalDigit\<close>.\<close>

definition IsOctalDigit :: "char \<Rightarrow> bool" where
  "IsOctalDigit ch = (48 \<le> (of_char ch :: nat) \<and> (of_char ch :: nat) \<le> 55)"

text \<open>\<^verbatim>\<open>GetHexDigit\<close>: the value of a hex digit, or \<open>-1\<close>.\<close>

definition GetHexDigit :: "char \<Rightarrow> int" where
  "GetHexDigit ch =
     (let c = (of_char ch :: nat) in
      if 48 \<le> c \<and> c \<le> 57 then int c - 48
      else if 65 \<le> c \<and> c \<le> 70 then int c - 65 + 10
      else if 97 \<le> c \<and> c \<le> 102 then int c - 97 + 10
      else -1)"

subsection \<open>replaceAll\<close>

text \<open>\<^verbatim>\<open>std::string::find(str, pos)\<close>: the first index \<open>i \<ge> pos\<close> at which \<open>str\<close> occurs,
  \<open>None\<close> for \<^verbatim>\<open>npos\<close>. \<open>find_at rest str i\<close> searches \<open>rest\<close>, the text from index \<open>i\<close> on.\<close>

fun find_at :: "string \<Rightarrow> string \<Rightarrow> nat \<Rightarrow> nat option" where
  "find_at [] str i = (if str = [] then Some i else None)"
| "find_at (c # cs) str i =
     (if take (length str) (c # cs) = str then Some i else find_at cs str (Suc i))"

definition string_find :: "string \<Rightarrow> string \<Rightarrow> nat \<Rightarrow> nat option" where
  "string_find source str pos =
     (if length source < pos then None else find_at (drop pos source) str pos)"

text \<open>The \<^verbatim>\<open>while\<close> loop of \<^verbatim>\<open>replaceAll\<close>, with its variables \<open>lastPos\<close> and \<open>newString\<close>.
  With an empty \<open>from\<close> the loop finds \<open>lastPos\<close> again and again and never returns: the
  function is partial, and \<open>None\<close> is "no result".\<close>

partial_function (option) replaceAll_loop ::
  "string \<Rightarrow> string \<Rightarrow> string \<Rightarrow> nat \<Rightarrow> string \<Rightarrow> string option" where
  "replaceAll_loop source from to lastPos newString =
     (case string_find source from lastPos of
        None \<Rightarrow> Some (newString @ drop lastPos source)
      | Some findPos \<Rightarrow>
          replaceAll_loop source from to (findPos + length from)
            (newString @ take (findPos - lastPos) (drop lastPos source) @ to))"

declare replaceAll_loop.simps [code]

definition replaceAll :: "string \<Rightarrow> string \<Rightarrow> string \<Rightarrow> string option" where
  "replaceAll source from to = replaceAll_loop source from to 0 []"

subsection \<open>translateRegExpr\<close>

text \<open>The method takes \<open>eolMode\<close> and \<open>rxOptions\<close> too, and its \<^verbatim>\<open>switch\<close> over the
  end-of-line mode has only comments in its branches: neither changes the result or the
  options, so the model leaves both out. The result is \<open>None\<close> only if \<open>replaceAll\<close> does
  not return.\<close>

definition translateRegExpr :: "string \<Rightarrow> bool \<Rightarrow> bool \<Rightarrow> string option" where
  "translateRegExpr regExprStr wholeWord wordStart =
     (if wholeWord \<or> wordStart then
        replaceAll ([BSL, CHR ''b''] @ regExprStr @ (if wholeWord then [BSL, CHR ''b''] else []))
          ''.'' [BSL, CHR ''w'']
      else Some regExprStr)"

text \<open>The translation as the specification words it: every dot of the text becomes the
  word-class token.\<close>

definition dots_to_word_class :: "string \<Rightarrow> string" where
  "dots_to_word_class s = concat (map (\<lambda>c. if c = CHR ''.'' then [BSL, CHR ''w''] else [c]) s)"

text \<open>The effective pattern of the specification: the pattern after the rewriting, which
  is what gets compiled.\<close>

definition effective_pattern :: "string \<Rightarrow> bool \<Rightarrow> bool \<Rightarrow> string" where
  "effective_pattern regExprStr wholeWord wordStart =
     (if wholeWord \<or> wordStart
      then dots_to_word_class
             ([BSL, CHR ''b''] @ regExprStr @ (if wholeWord then [BSL, CHR ''b''] else []))
      else regExprStr)"

subsection \<open>What the engine takes from Oniguruma, Scintilla and Windows\<close>

type_synonym OnigOptionType = "32 word"

text \<open>\<^verbatim>\<open>OnigRegion\<close>: \<open>num_regs\<close> pairs \<open>(beg[i], end[i])\<close>, entry 0 the whole match;
  \<^verbatim>\<open>onig_region_init\<close> leaves the empty region.\<close>

type_synonym OnigRegion = "(int \<times> int) list"

definition num_regs :: "OnigRegion \<Rightarrow> int" where
  "num_regs region = int (length region)"

text \<open>\<^verbatim>\<open>enum class EOLmode\<close>, the type of \<^verbatim>\<open>doc->eolMode\<close> after its cast, and the three
  encodings of \<^verbatim>\<open>s_UsedEncodingsTypes\<close>.\<close>

datatype EOLmode = CRLF | CR | LF

datatype OnigEncoding = ONIG_ENCODING_UTF8 | ONIG_ENCODING_UTF8_CR | ONIG_ENCODING_UTF8_CRLF

text \<open>The option bits are macros of \<^verbatim>\<open>oniguruma.h\<close> and \<^verbatim>\<open>Scintilla.h\<close>, which are not
  among the sources: the engine is modelled for any values of them.\<close>

record onig_h =
  ONIG_OPTION_DEFAULT :: OnigOptionType
  ONIG_OPTION_NONE :: OnigOptionType
  ONIG_OPTION_EXTEND :: OnigOptionType
  ONIG_OPTION_SINGLELINE :: OnigOptionType
  ONIG_OPTION_NEGATE_SINGLELINE :: OnigOptionType
  ONIG_OPTION_FIND_LONGEST :: OnigOptionType
  ONIG_SYN_OP_DOT_ANYCHAR :: OnigOptionType
  ONIG_OPTION_MULTILINE :: OnigOptionType
  ONIG_OPTION_IGNORECASE :: OnigOptionType
  ONIG_OPTION_NOTBOL :: OnigOptionType
  ONIG_OPTION_NOTEOL :: OnigOptionType
  SCFIND_DOT_MATCH_ALL :: "32 word"

text \<open>Modelled from the spec: the macro \<^verbatim>\<open>ONIG_MISMATCH\<close> of \<^verbatim>\<open>oniguruma.h\<close> (not among
  the sources), the "not found" sentinel; the source's own comment says \<open>-1\<close> is used for
  not found, and returns the literal \<open>-1\<close> for an empty pattern.\<close>

definition ONIG_MISMATCH :: int where
  "ONIG_MISMATCH = -1"

text \<open>Modelled from the spec: the macro \<^verbatim>\<open>ONIG_NORMAL\<close> of \<^verbatim>\<open>oniguruma.h\<close> (not among
  the sources), the result of a successful build.\<close>

definition ONIG_NORMAL :: int where
  "ONIG_NORMAL = 0"

text \<open>\<^verbatim>\<open>ONIG_OPTION_ON\<close> and \<^verbatim>\<open>ONIG_OPTION_OFF\<close>: \<^verbatim>\<open>options |= regopt\<close> and
  \<^verbatim>\<open>options &= ~regopt\<close>.\<close>

definition ONIG_OPTION_ON :: "OnigOptionType \<Rightarrow> OnigOptionType \<Rightarrow> OnigOptionType" where
  "ONIG_OPTION_ON options regopt = options OR regopt"

definition ONIG_OPTION_OFF :: "OnigOptionType \<Rightarrow> OnigOptionType \<Rightarrow> OnigOptionType" where
  "ONIG_OPTION_OFF options regopt = options AND NOT regopt"

text \<open>The matcher handle \<^verbatim>\<open>OnigRegex\<close>, a pointer: null, pointing to a compiled pattern,
  or still pointing to one that \<^verbatim>\<open>onig_free\<close> has released.\<close>

datatype 'rx OnigRegex = NullRegex | LiveRegex 'rx | FreedRegex 'rx

text \<open>What a call of \<^verbatim>\<open>onig_new\<close> does: it returns \<^verbatim>\<open>ONIG_NORMAL\<close> and stores a new
  handle, or returns an error code, or an exception leaves it (the source catches
  \<^verbatim>\<open>...\<close> around the call). What a call of \<^verbatim>\<open>onig_search\<close> does: it returns a position,
  \<^verbatim>\<open>ONIG_MISMATCH\<close> or an error code below it, with the region as it left it, or an
  exception leaves it.\<close>

datatype 'rx new_result = NewNormal 'rx | NewError int | NewThrows

datatype search_result = SearchReturns int OnigRegion | SearchThrows

text \<open>The collaborators whose code is not among the sources, as parameters: the Oniguruma
  calls, \<^verbatim>\<open>Document::MovePositionOutsideChar\<close> (document, position, direction), and the
  two Windows calls. \<open>onig_search\<close> takes the compiled pattern, the bytes of the whole
  document (\<open>docBegPtr\<close> to \<open>docEndPtr\<close>), the offsets of \<open>start\<close> and \<open>range\<close> in it and the
  options. \<open>WideCharToMultiByte\<close> takes the wide character and the size \<open>cbMultiByte\<close> and
  gives the bytes it stores in the buffer.\<close>

record 'rx externals =
  onig_new :: "string \<Rightarrow> OnigOptionType \<Rightarrow> OnigEncoding \<Rightarrow> 'rx new_result"
  onig_search :: "'rx \<Rightarrow> string \<Rightarrow> int \<Rightarrow> int \<Rightarrow> OnigOptionType \<Rightarrow> search_result"
  onig_name_to_backref_number :: "'rx \<Rightarrow> string \<Rightarrow> OnigRegion \<Rightarrow> int"
  onig_error_code_to_str :: "int \<Rightarrow> string"
  MovePositionOutsideChar :: "string \<Rightarrow> int \<Rightarrow> int \<Rightarrow> int"
  IsCharAlphaNumericA :: "char \<Rightarrow> bool"
  WideCharToMultiByte :: "nat \<Rightarrow> nat \<Rightarrow> string"

text \<open>What the source cannot survive: the model stops with a fault where the C++ has
  undefined behaviour, or where \<open>replaceAll\<close> would not return.\<close>

datatype fault = DoubleFree | UseAfterFree | NullDereference | OutOfRange | NoReturn

text \<open>Modelled from the spec: \<^verbatim>\<open>onig_free\<close> of Oniguruma (not among the sources), which
  releases a previously held matcher handle. The pointer variable keeps its value, so a
  live handle becomes a freed one; a null handle is left alone; releasing a freed handle
  again is a fault.\<close>

definition onig_free :: "'rx OnigRegex \<Rightarrow> fault + 'rx OnigRegex" where
  "onig_free reg =
     (case reg of
        NullRegex \<Rightarrow> Inr NullRegex
      | LiveRegex r \<Rightarrow> Inr (FreedRegex r)
      | FreedRegex r \<Rightarrow> Inl DoubleFree)"

text \<open>The calls of the matcher that a find request makes, in order, each with what it was
  given and what it did: the record of the request's effects on the library.\<close>

datatype 'rx onig_call =
    Call_onig_free "'rx OnigRegex"
  | Call_onig_new string OnigOptionType OnigEncoding "'rx new_result"
  | Call_onig_search 'rx int int OnigOptionType search_result

fun is_onig_new :: "'rx onig_call \<Rightarrow> bool" where
  "is_onig_new (Call_onig_new p opts enc res) = True"
| "is_onig_new c = False"


fun is_freed :: "'rx OnigRegex \<Rightarrow> bool" where
  "is_freed (FreedRegex r) = True"
| "is_freed reg = False"

subsection \<open>The document\<close>

text \<open>The \<^verbatim>\<open>Document\<close> as the engine reads it: its bytes, addressed by position, and its
  end-of-line mode. \<^verbatim>\<open>RangePointer(pos, len)\<close> is the pointer to position \<open>pos\<close>; the model
  keeps the position.\<close>

record Document =
  bytes :: string
  eolMode :: EOLmode

definition Length :: "Document \<Rightarrow> int" where
  "Length doc = int (length (bytes doc))"

subsection \<open>SetSimpleOptions\<close>

text \<open>The end-of-line mode \<open>eol\<close> and \<open>forwardSearch\<close> are parameters of the source that it
  does not use (a commented-out \<^verbatim>\<open>switch\<close> and two empty branches).\<close>

definition SetSimpleOptions :: "onig_h \<Rightarrow> EOLmode \<Rightarrow> bool \<Rightarrow> bool \<Rightarrow> 32 word \<Rightarrow> OnigOptionType" where
  "SetSimpleOptions K eol caseSensitive forwardSearch searchFlags =
     (let onigOptions = ONIG_OPTION_DEFAULT K;
          onigOptions = ONIG_OPTION_OFF onigOptions (ONIG_OPTION_EXTEND K);
          onigOptions = ONIG_OPTION_OFF onigOptions (ONIG_OPTION_SINGLELINE K);
          onigOptions = ONIG_OPTION_ON onigOptions (ONIG_OPTION_NEGATE_SINGLELINE K);
          onigOptions = ONIG_OPTION_OFF onigOptions (ONIG_OPTION_FIND_LONGEST K);
          onigOptions =
            (if searchFlags AND SCFIND_DOT_MATCH_ALL K \<noteq> 0
             then ONIG_OPTION_ON (ONIG_OPTION_ON onigOptions (ONIG_SYN_OP_DOT_ANYCHAR K))
                    (ONIG_OPTION_MULTILINE K)
             else ONIG_OPTION_OFF (ONIG_OPTION_OFF onigOptions (ONIG_SYN_OP_DOT_ANYCHAR K))
                    (ONIG_OPTION_MULTILINE K))
      in if caseSensitive then ONIG_OPTION_OFF onigOptions (ONIG_OPTION_IGNORECASE K)
         else ONIG_OPTION_ON onigOptions (ONIG_OPTION_IGNORECASE K))"

subsection \<open>The engine\<close>

text \<open>The fields of \<^verbatim>\<open>class OnigurumaRegExEngine\<close>. \<open>m_OnigSyntax\<close> is set by the constructor
  and never changed; it is part of what \<open>onig_new\<close> stands for.\<close>

record 'rx OnigurumaRegExEngine =
  m_RegExprStrg :: string
  m_CmplOptions :: OnigOptionType
  m_RegExpr :: "'rx OnigRegex"
  m_Region :: OnigRegion
  m_ErrorInfo :: string
  m_MatchPos :: int
  m_MatchLen :: int
  m_SubstBuffer :: string

text \<open>The constructor.\<close>

definition CreateRegexSearch :: "onig_h \<Rightarrow> 'rx OnigurumaRegExEngine" where
  "CreateRegexSearch K =
     \<lparr> m_RegExprStrg = [], m_CmplOptions = ONIG_OPTION_DEFAULT K, m_RegExpr = NullRegex,
       m_Region = [], m_ErrorInfo = [], m_MatchPos = ONIG_MISMATCH, m_MatchLen = 0,
       m_SubstBuffer = [] \<rparr>"

subsection \<open>FindText\<close>

text \<open>What a find request leaves: the engine, the returned position, the value in the
  caller's \<^verbatim>\<open>*length\<close> slot, and the calls of the matcher it made.\<close>

record 'rx find_result =
  find_engine :: "'rx OnigurumaRegExEngine"
  find_return :: int
  find_length :: int
  find_calls :: "'rx onig_call list"

text \<open>The options of the request: \<open>SetSimpleOptions\<close>, then the two range options.\<close>

definition find_options ::
  "onig_h \<Rightarrow> Document \<Rightarrow> bool \<Rightarrow> bool \<Rightarrow> 32 word \<Rightarrow> int \<Rightarrow> int \<Rightarrow> OnigOptionType" where
  "find_options K doc caseSensitive findForward searchFlags rangeBeg rangeEnd =
     (let onigOptions = SetSimpleOptions K (eolMode doc) caseSensitive findForward searchFlags;
          onigOptions = ONIG_OPTION_ON onigOptions
            (if 0 < rangeBeg then ONIG_OPTION_NOTBOL K else ONIG_OPTION_NONE K)
      in ONIG_OPTION_ON onigOptions
            (if rangeEnd < Length doc then ONIG_OPTION_NOTEOL K else ONIG_OPTION_NONE K))"

text \<open>\<^verbatim>\<open>bReCompile\<close>.\<close>

definition bReCompile :: "'rx OnigurumaRegExEngine \<Rightarrow> OnigOptionType \<Rightarrow> string \<Rightarrow> bool" where
  "bReCompile this onigOptions sRegExprStrg =
     (m_RegExpr this = NullRegex \<or> m_CmplOptions this \<noteq> onigOptions
        \<or> m_RegExprStrg this \<noteq> sRegExprStrg)"

text \<open>The encoding chosen for the end-of-line mode.\<close>

definition onigEncType :: "EOLmode \<Rightarrow> OnigEncoding" where
  "onigEncType eol =
     (if eol = LF then ONIG_ENCODING_UTF8
      else if eol = CR then ONIG_ENCODING_UTF8_CR else ONIG_ENCODING_UTF8_CRLF)"

text \<open>The search stage, from the reset of \<open>m_MatchPos\<close> to the end of the method. The four
  pointers are the positions \<open>0\<close>, \<open>docLen\<close>, \<open>rangeBeg\<close> and \<open>rangeEnd\<close>. A handle that is
  not live cannot be searched with. When \<open>onig_search\<close> throws, the region is the one
  \<open>onig_region_init\<close> left. \<open>len\<close> is the value the caller's slot holds.\<close>

definition search_stage ::
  "'rx externals \<Rightarrow> 'rx OnigurumaRegExEngine \<Rightarrow> Document \<Rightarrow> bool \<Rightarrow> int \<Rightarrow> int \<Rightarrow>
     OnigOptionType \<Rightarrow> int \<Rightarrow> 'rx onig_call list \<Rightarrow> fault + 'rx find_result" where
  "search_stage X this doc findForward rangeBeg rangeEnd onigOptions len done =
     (let this = this\<lparr>m_MatchPos := ONIG_MISMATCH, m_MatchLen := 0\<rparr>;
          start = (if findForward then rangeBeg else rangeEnd);
          rng = (if findForward then rangeEnd else rangeBeg)
      in case m_RegExpr this of
           NullRegex \<Rightarrow> Inl NullDereference
         | FreedRegex r \<Rightarrow> Inl UseAfterFree
         | LiveRegex r \<Rightarrow>
            (let res = onig_search X r (bytes doc) start rng onigOptions;
                 calls = done @ [Call_onig_search r start rng onigOptions res]
             in case res of
                  SearchThrows \<Rightarrow>
                    Inr \<lparr> find_engine = this\<lparr>m_Region := []\<rparr>, find_return = -3,
                          find_length = len, find_calls = calls \<rparr>
                | SearchReturns result region \<Rightarrow>
                    (let this = this\<lparr>m_Region := region\<rparr> in
                     if result < ONIG_MISMATCH then
                       Inr \<lparr> find_engine = this\<lparr>m_ErrorInfo := onig_error_code_to_str X result\<rparr>,
                             find_return = -3, find_length = len, find_calls = calls \<rparr>
                     else if 0 \<le> result \<and> rangeBeg \<le> rangeEnd then
                       (case region of
                          [] \<Rightarrow> Inl NullDereference
                        | (beg0, end0) # groups \<Rightarrow>
                            Inr \<lparr> find_engine = this\<lparr>m_MatchPos := beg0, m_MatchLen := end0 - beg0\<rparr>,
                                  find_return = beg0, find_length = end0 - beg0,
                                  find_calls = calls \<rparr>)
                     else
                       Inr \<lparr> find_engine = this, find_return = m_MatchPos this,
                             find_length = m_MatchLen this, find_calls = calls \<rparr>)))"

text \<open>The entry that the search stage adds to the calls when the handle points to \<open>r\<close>.\<close>

definition search_call ::
  "'rx externals \<Rightarrow> 'rx \<Rightarrow> Document \<Rightarrow> bool \<Rightarrow> int \<Rightarrow> int \<Rightarrow> OnigOptionType \<Rightarrow> 'rx onig_call" where
  "search_call X r doc findForward rangeBeg rangeEnd onigOptions =
     Call_onig_search r (if findForward then rangeBeg else rangeEnd)
       (if findForward then rangeEnd else rangeBeg) onigOptions
       (onig_search X r (bytes doc) (if findForward then rangeBeg else rangeEnd)
          (if findForward then rangeEnd else rangeBeg) onigOptions)"

text \<open>Modelled from the spec: the handle that \<^verbatim>\<open>onig_new\<close> of Oniguruma (not among the
  sources) leaves in \<^verbatim>\<open>m_RegExpr\<close>, which it is given by address. After a successful build
  it is the new compiled pattern; on a build failure no usable matcher is left: the handle
  is null. When the call throws, the variable is as it was before the call.\<close>

fun stored_handle :: "'rx OnigRegex \<Rightarrow> 'rx new_result \<Rightarrow> 'rx OnigRegex" where
  "stored_handle reg (NewNormal r) = LiveRegex r"
| "stored_handle reg (NewError code) = NullRegex"
| "stored_handle reg NewThrows = reg"

text \<open>The recompilation, the body of \<^verbatim>\<open>if (bReCompile)\<close>, followed by the search stage.
  \<open>onig_free\<close> runs first, inside the \<^verbatim>\<open>try\<close>; the \<^verbatim>\<open>catch\<close> returns \<open>-2\<close>, as the test of the
  result of \<open>onig_new\<close> does.\<close>

definition recompile_and_search ::
  "'rx externals \<Rightarrow> 'rx OnigurumaRegExEngine \<Rightarrow> Document \<Rightarrow> bool \<Rightarrow> int \<Rightarrow> int \<Rightarrow>
     OnigOptionType \<Rightarrow> string \<Rightarrow> int \<Rightarrow> fault + 'rx find_result" where
  "recompile_and_search X this doc findForward rangeBeg rangeEnd onigOptions sRegExprStrg len =
     (let this = this\<lparr>m_RegExprStrg := sRegExprStrg, m_CmplOptions := onigOptions,
                       m_ErrorInfo := []\<rparr>
      in case onig_free (m_RegExpr this) of
           Inl f \<Rightarrow> Inl f
         | Inr freed \<Rightarrow>
            (let res = onig_new X (m_RegExprStrg this) (m_CmplOptions this) (onigEncType (eolMode doc));
                 calls = [Call_onig_free (m_RegExpr this),
                          Call_onig_new (m_RegExprStrg this) (m_CmplOptions this)
                            (onigEncType (eolMode doc)) res];
                 this = this\<lparr>m_RegExpr := stored_handle freed res\<rparr>
             in case res of
                  NewThrows \<Rightarrow>
                    Inr \<lparr> find_engine = this, find_return = -2, find_length = len,
                          find_calls = calls \<rparr>
                | NewError code \<Rightarrow>
                    if code \<noteq> ONIG_NORMAL then
                      Inr \<lparr> find_engine = this\<lparr>m_ErrorInfo := onig_error_code_to_str X code\<rparr>,
                            find_return = -2, find_length = len, find_calls = calls \<rparr>
                    else search_stage X this doc findForward rangeBeg rangeEnd onigOptions len calls
                | NewNormal r \<Rightarrow>
                    search_stage X this doc findForward rangeBeg rangeEnd onigOptions len calls))"

text \<open>The pattern is a C string or a null pointer: \<open>None\<close> is the null pointer, and
  \<open>Some p\<close> the bytes before the terminating zero, so that \<^verbatim>\<open>strlen\<close> is the length and
  \<^verbatim>\<open>std::string sPattern(pattern)\<close> holds \<open>p\<close>. \<open>c_str\<close> is read only behind the null test.\<close>

definition c_str :: "string option \<Rightarrow> string" where
  "c_str pattern = (case pattern of None \<Rightarrow> [] | Some p \<Rightarrow> p)"

text \<open>The search range of a request: \<open>rangeBeg\<close> and \<open>rangeEnd\<close>, from \<open>minPos\<close> and
  \<open>maxPos\<close> moved outside characters.\<close>

definition search_range :: "'rx externals \<Rightarrow> Document \<Rightarrow> int \<Rightarrow> int \<Rightarrow> int \<times> int" where
  "search_range X doc minPos maxPos =
     (let findForward = (minPos \<le> maxPos);
          increment = (if findForward then 1 else -1);
          minPos = MovePositionOutsideChar X (bytes doc) minPos increment;
          maxPos = MovePositionOutsideChar X (bytes doc) maxPos increment;
          minPos = (if \<not> findForward
                    then MovePositionOutsideChar X (bytes doc) (minPos - 1) increment
                    else minPos)
      in (if findForward then minPos else maxPos, if findForward then maxPos else minPos))"

text \<open>The options \<open>onigOptions\<close> of a request.\<close>

definition resolved_options ::
  "'rx externals \<Rightarrow> onig_h \<Rightarrow> Document \<Rightarrow> int \<Rightarrow> int \<Rightarrow> bool \<Rightarrow> 32 word \<Rightarrow> OnigOptionType" where
  "resolved_options X K doc minPos maxPos caseSensitive searchFlags =
     find_options K doc caseSensitive (minPos \<le> maxPos) searchFlags
       (fst (search_range X doc minPos maxPos)) (snd (search_range X doc minPos maxPos))"

text \<open>\<^verbatim>\<open>OnigurumaRegExEngine::FindText\<close>. \<open>len\<close> is what the caller's \<^verbatim>\<open>*length\<close> holds at the
  call.\<close>

definition FindText ::
  "'rx externals \<Rightarrow> onig_h \<Rightarrow> 'rx OnigurumaRegExEngine \<Rightarrow> Document \<Rightarrow> int \<Rightarrow> int \<Rightarrow>
     string option \<Rightarrow> bool \<Rightarrow> bool \<Rightarrow> bool \<Rightarrow> 32 word \<Rightarrow> int \<Rightarrow> fault + 'rx find_result" where
  "FindText X K this doc minPos maxPos pattern caseSensitive word wordStart searchFlags len =
     (if \<not> (pattern \<noteq> None \<and> 0 < length (c_str pattern)) then
        Inr \<lparr> find_engine = this, find_return = -1, find_length = 0, find_calls = [] \<rparr>
      else
        let findForward = (minPos \<le> maxPos);
            rangeBeg = fst (search_range X doc minPos maxPos);
            rangeEnd = snd (search_range X doc minPos maxPos);
            onigOptions = resolved_options X K doc minPos maxPos caseSensitive searchFlags
        in case translateRegExpr (c_str pattern) word wordStart of
             None \<Rightarrow> Inl NoReturn
           | Some sRegExprStrg \<Rightarrow>
               if bReCompile this onigOptions sRegExprStrg
               then recompile_and_search X this doc findForward rangeBeg rangeEnd onigOptions
                      sRegExprStrg len
               else search_stage X this doc findForward rangeBeg rangeEnd onigOptions len [])"

subsection \<open>convertReplExpr\<close>

text \<open>The conversion of a wide character in the branch for \<^verbatim>\<open>\x\<close> and \<^verbatim>\<open>\u\<close>: the buffer
  \<open>buf\<close> has 8 zero bytes, \<open>WideCharToMultiByte\<close> is given the size \<^verbatim>\<open>ARRAYSIZE(val)\<close>,
  which is 2, and stores no more than that; then the first byte of the buffer is pushed,
  and the bytes after it up to the first zero.\<close>

definition wide_char_bytes :: "'rx externals \<Rightarrow> nat \<Rightarrow> string" where
  "wide_char_bytes X val =
     (case take 8 (take 2 (WideCharToMultiByte X val 2) @ replicate 8 NUL) of
        [] \<Rightarrow> []
      | first # rest \<Rightarrow> first # takeWhile (\<lambda>c. c \<noteq> NUL) rest)"

text \<open>The branch for \<^verbatim>\<open>\x\<close> and \<^verbatim>\<open>\u\<close>, entered with \<open>i\<close> at the letter \<open>ch\<close>: the index
  it leaves \<open>i\<close> at, and the bytes it pushes.\<close>

definition hex_escape :: "'rx externals \<Rightarrow> string \<Rightarrow> nat \<Rightarrow> char \<Rightarrow> nat \<times> string" where
  "hex_escape X replStr i ch =
     (let bShort = (ch = CHR ''x'');
          i = i + 1;
          hex1 = GetHexDigit (at replStr i)
      in if 0 \<le> hex1 then
           (let i = i + 1;
                hex2 = GetHexDigit (at replStr i);
                hex3 = GetHexDigit (at replStr (i + 1));
                hex4 = GetHexDigit (at replStr (i + 2));
                i_val =
                  (if 0 \<le> hex2 then
                     (if \<not> bShort then
                        (if 0 \<le> hex3 then
                           (if 0 \<le> hex4
                            then (i + 3, ((hex1 * 16 + hex2) * 16 + hex3) * 16 + hex4)
                            else (i + 2, (hex1 * 16 + hex2) * 16 + hex3))
                         else (i + 1, hex1 * 16 + hex2))
                      else (i + 1, hex1 * 16 + hex2))
                   else (i, hex1))
            in if snd i_val \<noteq> 0 then (fst i_val, wide_char_bytes X (nat (snd i_val)))
               else (fst i_val, [ch]))
         else (i, [ch]))"

lemma hex_escape_advances: "i < fst (hex_escape X replStr i ch)"
  by (simp add: hex_escape_def Let_def)

text \<open>The body of the \<^verbatim>\<open>for\<close> loop of \<^verbatim>\<open>convertReplExpr\<close>, run at index \<open>i\<close>: the index
  after the loop's own \<^verbatim>\<open>++i\<close>, and the bytes pushed to \<open>tmpStr\<close>. After a backslash \<open>ch\<close> is
  the next byte, the terminating zero at the end of the string.\<close>

definition convertReplExpr_body :: "'rx externals \<Rightarrow> string \<Rightarrow> nat \<Rightarrow> nat \<times> string" where
  "convertReplExpr_body X replStr i =
     (if at replStr i = BSL then
        (let ch = at replStr (i + 1) in
         if 49 \<le> (of_char ch :: nat) \<and> (of_char ch :: nat) \<le> 57 then (i + 2, [CHR ''$'', ch])
         else if ch = CHR ''a'' then (i + 2, [CHR 0x07])
         else if ch = CHR ''b'' then (i + 2, [CHR 0x1B])
         else if ch = CHR ''f'' then (i + 2, [CHR 0x0C])
         else if ch = CHR ''n'' then (i + 2, [CHR 0x0A])
         else if ch = CHR ''r'' then (i + 2, [CHR 0x0D])
         else if ch = CHR ''t'' then (i + 2, [CHR 0x09])
         else if ch = CHR ''v'' then (i + 2, [CHR 0x0B])
         else if ch = BSL then (i + 2, [BSL, BSL])
         else if ch = CHR ''x'' \<or> ch = CHR ''u'' then
           (fst (hex_escape X replStr (i + 1) ch) + 1, snd (hex_escape X replStr (i + 1) ch))
         else (i + 2, [BSL, ch]))
      else (i + 1, [at replStr i]))"

lemma convertReplExpr_body_advances: "i < fst (convertReplExpr_body X replStr i)"
proof -
  have "i < fst (hex_escape X replStr (i + 1) ch) + 1" for ch
    using hex_escape_advances [of "i + 1" X replStr ch] by linarith
  then show ?thesis
    by (simp add: convertReplExpr_body_def Let_def)
qed

text \<open>The loop, with its index \<open>i\<close> and the string \<open>tmpStr\<close>.\<close>

function convertReplExpr_loop :: "'rx externals \<Rightarrow> string \<Rightarrow> nat \<Rightarrow> string \<Rightarrow> string" where
  "convertReplExpr_loop X replStr i tmpStr =
     (if i < length replStr
      then convertReplExpr_loop X replStr (fst (convertReplExpr_body X replStr i))
             (tmpStr @ snd (convertReplExpr_body X replStr i))
      else tmpStr)"
  by pat_completeness auto
termination
proof (relation "measure (\<lambda>(X, replStr, i, tmpStr). length replStr - i)")
  fix X :: "'rx externals" and replStr tmpStr :: string and i :: nat
  assume "i < length replStr"
  moreover have "i < fst (convertReplExpr_body X replStr i)"
    by (rule convertReplExpr_body_advances)
  ultimately show "((X, replStr, fst (convertReplExpr_body X replStr i),
                     tmpStr @ snd (convertReplExpr_body X replStr i)), X, replStr, i, tmpStr)
        \<in> measure (\<lambda>(X, replStr, i, tmpStr). length replStr - i)"
    by simp
qed simp

declare convertReplExpr_loop.simps [simp del]

definition convertReplExpr :: "'rx externals \<Rightarrow> string \<Rightarrow> string" where
  "convertReplExpr X replStr = convertReplExpr_loop X replStr 0 []"

subsection \<open>SubstituteByPosition\<close>

text \<open>\<^verbatim>\<open>m_SubstBuffer.append(doc->RangePointer(rBeg, len), static_cast<size_t>(len))\<close>: the
  bytes of the document from \<open>rBeg\<close>, \<open>len\<close> of them. Nothing is read when \<open>len\<close> is zero (a
  group that did not take part has \<open>beg = end = -1\<close>); a range that is not inside the
  document is a fault.\<close>

definition append_range :: "Document \<Rightarrow> int \<Rightarrow> int \<Rightarrow> string \<Rightarrow> fault + string" where
  "append_range doc rBeg len buf =
     (if len = 0 then Inr buf
      else if 0 \<le> rBeg \<and> 0 < len \<and> rBeg + len \<le> Length doc
      then Inr (buf @ take (nat len) (drop (nat rBeg) (bytes doc)))
      else Inl OutOfRange)"

text \<open>The bytes of group \<open>grpNum\<close> appended, when \<open>0 \<le> grpNum < num_regs\<close>.\<close>

definition append_group :: "Document \<Rightarrow> OnigRegion \<Rightarrow> int \<Rightarrow> string \<Rightarrow> fault + string" where
  "append_group doc region grpNum buf =
     (let rBeg = fst (region ! nat grpNum);
          len = snd (region ! nat grpNum) - rBeg
      in append_range doc rBeg len buf)"

text \<open>A group's document byte range, as the specification words it: the bytes of the
  document from the group's start to its end, and none for a group that did not take part
  in the match (its start and end are equal, both \<open>-1\<close>). A group is in the document when
  it is empty or lies between the ends of the document.\<close>

definition group_bytes :: "Document \<Rightarrow> int \<times> int \<Rightarrow> string" where
  "group_bytes doc g =
     (if fst g = snd g then [] else take (nat (snd g - fst g)) (drop (nat (fst g)) (bytes doc)))"

definition group_in_document :: "Document \<Rightarrow> int \<times> int \<Rightarrow> bool" where
  "group_in_document doc g = (fst g = snd g \<or> (0 \<le> fst g \<and> fst g \<le> snd g \<and> snd g \<le> Length doc))"

text \<open>\<^verbatim>\<open>while (rawReplStrg[k] && IsCharAlphaNumericA(rawReplStrg[k])) { ++k; }\<close>\<close>

function scan_name :: "'rx externals \<Rightarrow> string \<Rightarrow> nat \<Rightarrow> nat" where
  "scan_name X rawReplStrg k =
     (if k < length rawReplStrg \<and> at rawReplStrg k \<noteq> NUL \<and> IsCharAlphaNumericA X (at rawReplStrg k)
      then scan_name X rawReplStrg (k + 1) else k)"
  by pat_completeness auto
termination
  by (relation "measure (\<lambda>(X, rawReplStrg, k). length rawReplStrg - k)") auto

declare scan_name.simps [simp del]

lemma scan_name_ge: "k \<le> scan_name X rawReplStrg k"
proof (induction X rawReplStrg k rule: scan_name.induct)
  case (1 X rawReplStrg k)
  show ?case
  proof (cases "k < length rawReplStrg \<and> at rawReplStrg k \<noteq> NUL
                  \<and> IsCharAlphaNumericA X (at rawReplStrg k)")
    case True
    with "1" have "k + 1 \<le> scan_name X rawReplStrg (k + 1)" by blast
    with True show ?thesis by (subst scan_name.simps) simp
  next
    case False
    then show ?thesis by (subst scan_name.simps) auto
  qed
qed

text \<open>\<^verbatim>\<open>onig_name_to_backref_number(m_RegExpr, name_beg, name_end, &m_Region)\<close>, which reads
  the compiled pattern behind the handle.\<close>

definition name_to_backref ::
  "'rx externals \<Rightarrow> 'rx OnigRegex \<Rightarrow> string \<Rightarrow> OnigRegion \<Rightarrow> fault + int" where
  "name_to_backref X reg name region =
     (case reg of
        NullRegex \<Rightarrow> Inl NullDereference
      | FreedRegex r \<Rightarrow> Inl UseAfterFree
      | LiveRegex r \<Rightarrow> Inr (onig_name_to_backref_number X r name region))"

text \<open>The index \<open>k\<close> at which the name of a named group starts, after \<^verbatim>\<open>$+{\<close> or \<^verbatim>\<open>${\<close>
  at \<open>j\<close>, and 0 when neither stands there.\<close>

definition name_start :: "string \<Rightarrow> nat \<Rightarrow> nat" where
  "name_start rawReplStrg j =
     (if at rawReplStrg (j + 1) = CHR ''+'' \<and> at rawReplStrg (j + 2) = CHR ''{'' then j + 3
      else if at rawReplStrg (j + 1) = CHR ''{'' then j + 2 else 0)"

lemma name_start_after:
  "0 < name_start rawReplStrg j \<Longrightarrow> j < scan_name X rawReplStrg (name_start rawReplStrg j) + 1"
proof -
  assume "0 < name_start rawReplStrg j"
  then have "j < name_start rawReplStrg j"
    by (auto simp: name_start_def split: if_splits)
  with scan_name_ge [of "name_start rawReplStrg j" X rawReplStrg] show ?thesis by linarith
qed

text \<open>The body of the \<^verbatim>\<open>for\<close> loop of \<^verbatim>\<open>SubstituteByPosition\<close>, run at index \<open>j\<close> with the
  buffer \<open>m_SubstBuffer\<close>: the index after the loop's own \<^verbatim>\<open>++j\<close>, and the buffer. \<open>reg\<close> and
  \<open>region\<close> are \<open>m_RegExpr\<close> and \<open>m_Region\<close>, which the loop only reads.\<close>

definition SubstituteByPosition_body ::
  "'rx externals \<Rightarrow> 'rx OnigRegex \<Rightarrow> OnigRegion \<Rightarrow> Document \<Rightarrow> string \<Rightarrow> nat \<Rightarrow> string \<Rightarrow>
     fault + nat \<times> string" where
  "SubstituteByPosition_body X reg region doc rawReplStrg j buf =
     (if at rawReplStrg j = CHR ''$'' \<or> at rawReplStrg j = BSL then
        (if is_digit (at rawReplStrg (j + 1)) then
           (let digit2nd = (is_digit (at rawReplStrg (j + 2)) \<and> 10 < num_regs region);
                grpNum = (if digit2nd
                          then digit_val (at rawReplStrg (j + 1)) * 10 + digit_val (at rawReplStrg (j + 2))
                          else digit_val (at rawReplStrg (j + 1)))
            in case (if grpNum < num_regs region then append_group doc region grpNum buf
                     else Inr buf) of
                 Inl f \<Rightarrow> Inl f
               | Inr buf \<Rightarrow> Inr (j + (if digit2nd then 2 else 1) + 1, buf))
         else if at rawReplStrg j = CHR ''$'' then
           (let k = name_start rawReplStrg j
            in if 0 < k \<and> at rawReplStrg (scan_name X rawReplStrg k) = CHR ''}'' then
                 (case name_to_backref X reg
                         (take (scan_name X rawReplStrg k - k) (drop k rawReplStrg)) region of
                    Inl f \<Rightarrow> Inl f
                  | Inr grpNum \<Rightarrow>
                     (case (if 0 \<le> grpNum \<and> grpNum < num_regs region
                            then append_group doc region grpNum buf else Inr buf) of
                        Inl f \<Rightarrow> Inl f
                      | Inr buf \<Rightarrow> Inr (scan_name X rawReplStrg k + 1, buf)))
               else Inr (j + 1, buf @ [at rawReplStrg j]))
         else if at rawReplStrg (j + 1) = CHR ''$'' \<or> at rawReplStrg (j + 1) = BSL then
           Inr (j + 2, buf @ [at rawReplStrg (j + 1)])
         else Inr (j + 1, buf @ [at rawReplStrg j]))
      else Inr (j + 1, buf @ [at rawReplStrg j]))"

lemma SubstituteByPosition_body_advances:
  assumes "SubstituteByPosition_body X reg region doc rawReplStrg j buf = Inr r"
  shows "j < fst r"
  using assms name_start_after [of rawReplStrg j X]
  by (auto simp: SubstituteByPosition_body_def Let_def split: if_splits sum.splits)

text \<open>The loop, with its index \<open>j\<close> and the buffer.\<close>

function SubstituteByPosition_loop ::
  "'rx externals \<Rightarrow> 'rx OnigRegex \<Rightarrow> OnigRegion \<Rightarrow> Document \<Rightarrow> string \<Rightarrow> nat \<Rightarrow> string \<Rightarrow>
     fault + string" where
  "SubstituteByPosition_loop X reg region doc rawReplStrg j buf =
     (if j < length rawReplStrg then
        (case SubstituteByPosition_body X reg region doc rawReplStrg j buf of
           Inl f \<Rightarrow> Inl f
         | Inr r \<Rightarrow> SubstituteByPosition_loop X reg region doc rawReplStrg (fst r) (snd r))
      else Inr buf)"
  by pat_completeness auto
termination
proof (relation "measure (\<lambda>(X, reg, region, doc, rawReplStrg, j, buf). length rawReplStrg - j)")
  fix X :: "'rx externals" and reg :: "'rx OnigRegex" and region :: OnigRegion
    and doc :: Document and rawReplStrg buf :: string and j :: nat and r :: "nat \<times> string"
  assume "j < length rawReplStrg"
    and "SubstituteByPosition_body X reg region doc rawReplStrg j buf = Inr r"
  then show "((X, reg, region, doc, rawReplStrg, fst r, snd r), X, reg, region, doc, rawReplStrg, j, buf)
        \<in> measure (\<lambda>(X, reg, region, doc, rawReplStrg, j, buf). length rawReplStrg - j)"
    using SubstituteByPosition_body_advances [of X reg region doc rawReplStrg j buf r]
    by (cases r) simp
qed simp

declare SubstituteByPosition_loop.simps [simp del]

text \<open>What a substitution request leaves: the engine, the returned pointer (\<open>None\<close> is the
  null pointer, \<open>Some\<close> the bytes of \<open>m_SubstBuffer\<close>) and the value in the caller's
  \<^verbatim>\<open>*length\<close> slot.\<close>

record 'rx subst_result =
  subst_engine :: "'rx OnigurumaRegExEngine"
  subst_return :: "string option"
  subst_length :: int

text \<open>\<^verbatim>\<open>OnigurumaRegExEngine::SubstituteByPosition\<close>. \<open>text\<close> holds the \<^verbatim>\<open>*length\<close> bytes of
  the template.\<close>

definition SubstituteByPosition ::
  "'rx externals \<Rightarrow> 'rx OnigurumaRegExEngine \<Rightarrow> Document \<Rightarrow> string \<Rightarrow> fault + 'rx subst_result" where
  "SubstituteByPosition X this doc text =
     (if m_MatchPos this < 0 then
        Inr \<lparr> subst_engine = this, subst_return = None, subst_length = -1 \<rparr>
      else
        let rawReplStrg = convertReplExpr X text
        in case SubstituteByPosition_loop X (m_RegExpr this) (m_Region this) doc rawReplStrg 0 [] of
             Inl f \<Rightarrow> Inl f
           | Inr buf \<Rightarrow>
               Inr \<lparr> subst_engine = this\<lparr>m_SubstBuffer := buf\<rparr>, subst_return = Some buf,
                     subst_length = int (length buf) \<rparr>)"

subsection \<open>A small library for the examples\<close>

text \<open>One assignment of the option bits: distinct bits, in the order of \<^verbatim>\<open>oniguruma.h\<close>,
  with \<^verbatim>\<open>ONIG_SYN_OP_DOT_ANYCHAR\<close> the second bit as there.\<close>

definition example_h :: onig_h where
  "example_h =
     \<lparr> ONIG_OPTION_DEFAULT = 0, ONIG_OPTION_NONE = 0, ONIG_OPTION_EXTEND = 2,
       ONIG_OPTION_SINGLELINE = 8, ONIG_OPTION_NEGATE_SINGLELINE = 64,
       ONIG_OPTION_FIND_LONGEST = 16, ONIG_SYN_OP_DOT_ANYCHAR = 2, ONIG_OPTION_MULTILINE = 4,
       ONIG_OPTION_IGNORECASE = 1, ONIG_OPTION_NOTBOL = 512, ONIG_OPTION_NOTEOL = 1024,
       SCFIND_DOT_MATCH_ALL = 0x10000000 \<rparr>"

text \<open>A matcher of literal text, standing in for Oniguruma in the examples. A compiled
  pattern is the pattern text. The pattern \<open>(abc\<close> is refused with the code of an unmatched
  parenthesis; every other pattern matches its own text at its first occurrence between
  the two ends of the range. No group has a name, positions are never moved, and a wide
  character is converted when its UTF-8 form and the terminating zero fit the buffer.\<close>

definition literal_search :: "string \<Rightarrow> string \<Rightarrow> int \<Rightarrow> int \<Rightarrow> OnigOptionType \<Rightarrow> search_result" where
  "literal_search r str start rng opts =
     (case string_find str r (nat (min start rng)) of
        None \<Rightarrow> SearchReturns (-1) []
      | Some i \<Rightarrow>
          if int i + int (length r) \<le> max start rng
          then SearchReturns (int i) [(int i, int i + int (length r))]
          else SearchReturns (-1) [])"

definition literal_matcher :: "string externals" where
  "literal_matcher =
     \<lparr> onig_new = (\<lambda>p opts enc. if p = ''(abc'' then NewError (-117) else NewNormal p),
       onig_search = literal_search,
       onig_name_to_backref_number = (\<lambda>r name region. -217),
       onig_error_code_to_str = (\<lambda>code. ''error''),
       MovePositionOutsideChar = (\<lambda>text pos dir. pos),
       IsCharAlphaNumericA = (\<lambda>c. is_digit c \<or> (65 \<le> (of_char c :: nat) \<and> (of_char c :: nat) \<le> 90)
                                   \<or> (97 \<le> (of_char c :: nat) \<and> (of_char c :: nat) \<le> 122)),
       WideCharToMultiByte = (\<lambda>val cb. if val < 128 \<and> 2 \<le> cb then [char_of val, NUL] else []) \<rparr>"

text \<open>The same library with a build that throws.\<close>

definition throwing_matcher :: "string externals" where
  "throwing_matcher = literal_matcher\<lparr>onig_new := (\<lambda>p opts enc. NewThrows)\<rparr>"

text \<open>A document with line feeds, and the engine after construction.\<close>

definition example_doc :: Document where
  "example_doc = \<lparr> bytes = ''concatenate cat scat'', eolMode = LF \<rparr>"

definition new_engine :: "string OnigurumaRegExEngine" where
  "new_engine = CreateRegexSearch example_h"

text \<open>An engine that holds a match of the first five bytes with two groups.\<close>

definition groups_engine :: "string OnigurumaRegExEngine" where
  "groups_engine =
     \<lparr> m_RegExprStrg = ''(..)n(..)'', m_CmplOptions = 64, m_RegExpr = LiveRegex ''(..)n(..)'',
       m_Region = [(0, 5), (0, 2), (3, 5)], m_ErrorInfo = [], m_MatchPos = 0, m_MatchLen = 5,
       m_SubstBuffer = [] \<rparr>"

text \<open>The engine after it has found \<open>cat\<close> in the document, the engine after the pattern
  \<open>(abc\<close> was refused, and the library with a search that fails with the code of a stack
  overflow.\<close>

definition cat_engine :: "string OnigurumaRegExEngine" where
  "cat_engine =
     \<lparr> m_RegExprStrg = ''cat'', m_CmplOptions = 64, m_RegExpr = LiveRegex ''cat'',
       m_Region = [(3, 6)], m_ErrorInfo = [], m_MatchPos = 3, m_MatchLen = 3,
       m_SubstBuffer = [] \<rparr>"

definition refused_engine :: "string OnigurumaRegExEngine" where
  "refused_engine =
     \<lparr> m_RegExprStrg = ''(abc'', m_CmplOptions = 64, m_RegExpr = NullRegex,
       m_Region = [], m_ErrorInfo = ''error'', m_MatchPos = -1, m_MatchLen = 0,
       m_SubstBuffer = [] \<rparr>"

definition failing_matcher :: "string externals" where
  "failing_matcher = literal_matcher\<lparr>onig_search := (\<lambda>r str start rng opts. SearchReturns (-15) [])\<rparr>"

text \<open>The literal matcher with a build that throws for the pattern \<open>x+\<close> and does as
  before for every other pattern.\<close>

definition faulting_matcher :: "string externals" where
  "faulting_matcher =
     literal_matcher\<lparr>onig_new := (\<lambda>p opts enc. if p = ''x+'' then NewThrows
                                       else onig_new literal_matcher p opts enc)\<rparr>"

text \<open>The engine that had found \<open>cat\<close>, after the build of \<open>x+\<close> threw (the handle still
  points to the released pattern), and after the pattern \<open>(abc\<close> was refused (the match of
  \<open>cat\<close> is still stored).\<close>

definition released_engine :: "string OnigurumaRegExEngine" where
  "released_engine =
     \<lparr> m_RegExprStrg = ''x+'', m_CmplOptions = 64, m_RegExpr = FreedRegex ''cat'',
       m_Region = [(3, 6)], m_ErrorInfo = [], m_MatchPos = 3, m_MatchLen = 3,
       m_SubstBuffer = [] \<rparr>"

definition refused_after_cat :: "string OnigurumaRegExEngine" where
  "refused_after_cat =
     \<lparr> m_RegExprStrg = ''(abc'', m_CmplOptions = 64, m_RegExpr = NullRegex,
       m_Region = [(3, 6)], m_ErrorInfo = ''error'', m_MatchPos = 3, m_MatchLen = 3,
       m_SubstBuffer = [] \<rparr>"

section \<open>Properties\<close>

lemmas example_defs =
  new_engine_def CreateRegexSearch_def example_h_def literal_matcher_def throwing_matcher_def
  example_doc_def literal_search_def cat_engine_def refused_engine_def failing_matcher_def
  groups_engine_def faulting_matcher_def released_engine_def refused_after_cat_def

lemmas FindText_defs =
  FindText_def c_str_def bReCompile_def resolved_options_def find_options_def search_range_def
  SetSimpleOptions_def Length_def ONIG_OPTION_ON_def ONIG_OPTION_OFF_def recompile_and_search_def
  onig_free_def onigEncType_def search_stage_def ONIG_MISMATCH_def ONIG_NORMAL_def

lemmas eval_defs = FindText_defs example_defs translateRegExpr_def string_find_def

subsection \<open>The pattern translator\<close>

lemma find_at_dot_None:
  "find_at xs ''.'' i = None \<Longrightarrow> CHR ''.'' \<notin> set xs"
  by (induction xs arbitrary: i) (auto split: if_splits)

lemma find_at_dot_Some:
  "find_at xs ''.'' i = Some p \<Longrightarrow>
     \<exists>n. p = i + n \<and> n < length xs \<and> xs ! n = CHR ''.'' \<and> CHR ''.'' \<notin> set (take n xs)"
proof (induction xs arbitrary: i)
  case Nil
  then show ?case by simp
next
  case (Cons c cs)
  show ?case
  proof (cases "c = CHR ''.''")
    case True
    with Cons.prems have "p = i" by simp
    with True show ?thesis by (intro exI [of _ 0]) simp
  next
    case False
    with Cons.prems have "find_at cs ''.'' (Suc i) = Some p" by simp
    from Cons.IH [OF this] obtain n where
      n: "p = Suc i + n" "n < length cs" "cs ! n = CHR ''.''" "CHR ''.'' \<notin> set (take n cs)"
      by blast
    with False show ?thesis by (intro exI [of _ "Suc n"]) simp
  qed
qed

lemma dots_to_word_class_no_dot: "CHR ''.'' \<notin> set xs \<Longrightarrow> dots_to_word_class xs = xs"
  by (induction xs) (auto simp: dots_to_word_class_def)

lemma dots_to_word_class_append:
  "dots_to_word_class (xs @ ys) = dots_to_word_class xs @ dots_to_word_class ys"
  by (simp add: dots_to_word_class_def)

lemma dots_to_word_class_at_dot:
  assumes "n < length xs" "xs ! n = CHR ''.''" "CHR ''.'' \<notin> set (take n xs)"
  shows "dots_to_word_class xs = take n xs @ [BSL, CHR ''w''] @ dots_to_word_class (drop (Suc n) xs)"
proof -
  have "xs = take n xs @ [CHR ''.''] @ drop (Suc n) xs"
    using assms(1,2) by (metis append_Cons append_Nil id_take_nth_drop)
  then have "dots_to_word_class xs
      = dots_to_word_class (take n xs) @ dots_to_word_class [CHR ''.'']
          @ dots_to_word_class (drop (Suc n) xs)"
    by (metis dots_to_word_class_append)
  then show ?thesis
    using assms(3) by (simp add: dots_to_word_class_no_dot) (simp add: dots_to_word_class_def)
qed

text \<open>The loop of \<open>replaceAll\<close> returns when it replaces dots, and what it returns: by
  induction on the text that is left after \<open>lastPos\<close>.\<close>

lemma replaceAll_loop_dot:
  "lastPos \<le> length source \<Longrightarrow>
   replaceAll_loop source ''.'' [BSL, CHR ''w''] lastPos newString
     = Some (newString @ dots_to_word_class (drop lastPos source))"
proof (induction "length source - lastPos" arbitrary: lastPos newString rule: less_induct)
  case less
  show ?case
  proof (cases "string_find source ''.'' lastPos")
    case None
    with less.prems have "find_at (drop lastPos source) ''.'' lastPos = None"
      by (simp add: string_find_def)
    then have "CHR ''.'' \<notin> set (drop lastPos source)" by (rule find_at_dot_None)
    then have "dots_to_word_class (drop lastPos source) = drop lastPos source"
      by (rule dots_to_word_class_no_dot)
    with None show ?thesis by (subst replaceAll_loop.simps) simp
  next
    case (Some findPos)
    with less.prems have "find_at (drop lastPos source) ''.'' lastPos = Some findPos"
      by (simp add: string_find_def)
    from find_at_dot_Some [OF this] obtain n where
      n: "findPos = lastPos + n" "n < length (drop lastPos source)"
         "drop lastPos source ! n = CHR ''.''" "CHR ''.'' \<notin> set (take n (drop lastPos source))"
      by blast
    have le: "findPos + 1 \<le> length source" using n(1,2) by simp
    have dec: "length source - (findPos + 1) < length source - lastPos" using n(1,2) by simp
    have step: "replaceAll_loop source ''.'' [BSL, CHR ''w''] (findPos + 1)
        (newString @ take (findPos - lastPos) (drop lastPos source) @ [BSL, CHR ''w''])
      = Some ((newString @ take (findPos - lastPos) (drop lastPos source) @ [BSL, CHR ''w''])
          @ dots_to_word_class (drop (findPos + 1) source))"
      using less.hyps [OF dec le] .
    have "dots_to_word_class (drop lastPos source)
        = take n (drop lastPos source) @ [BSL, CHR ''w'']
            @ dots_to_word_class (drop (Suc n) (drop lastPos source))"
      using n(2,3,4) by (rule dots_to_word_class_at_dot)
    moreover have "drop (Suc n) (drop lastPos source) = drop (findPos + 1) source"
      using n(1) by (simp add: add.commute)
    moreover have "findPos - lastPos = n" using n(1) by simp
    ultimately show ?thesis
      using Some step by (subst replaceAll_loop.simps) simp
  qed
qed

lemma translateRegExpr_Some:
  "translateRegExpr regExprStr wholeWord wordStart =
     Some (if wholeWord \<or> wordStart
           then dots_to_word_class
                  ([BSL, CHR ''b''] @ regExprStr @ (if wholeWord then [BSL, CHR ''b''] else []))
           else regExprStr)"
  by (simp add: translateRegExpr_def replaceAll_def replaceAll_loop_dot)

lemma translateRegExpr_effective:
  "translateRegExpr regExprStr wholeWord wordStart
     = Some (effective_pattern regExprStr wholeWord wordStart)"
  by (simp add: translateRegExpr_Some effective_pattern_def)

text \<open>Claim C3. For every pattern and both flags the translation returns a result (there is
  no error path, and the loop of \<open>replaceAll\<close> ends): the pattern itself when neither flag is
  set; otherwise the pattern with \<open>\b\<close> put in front, and \<open>\b\<close> put behind when \<open>wholeWord\<close>
  is set, in which every dot, wherever it stands, has become \<open>\w\<close>.\<close>

theorem translateRegExpr_result:
  "translateRegExpr regExprStr wholeWord wordStart =
     Some (if wholeWord \<or> wordStart
           then dots_to_word_class
                  ([BSL, CHR ''b''] @ regExprStr @ (if wholeWord then [BSL, CHR ''b''] else []))
           else regExprStr)"
  by (rule translateRegExpr_Some)

text \<open>The pattern \<open>a.c[.]\.\<close>: the dot in the class and the escaped dot are replaced too.\<close>

theorem translateRegExpr_result_witness:
  "translateRegExpr (''a.c[.]'' @ [BSL] @ ''.'') True False
     = Some ([BSL] @ ''ba'' @ [BSL] @ ''wc['' @ [BSL] @ ''w]'' @ [BSL, BSL] @ ''w'' @ [BSL] @ ''b'')
   \<and> translateRegExpr (''a.c[.]'' @ [BSL] @ ''.'') False True
     = Some ([BSL] @ ''ba'' @ [BSL] @ ''wc['' @ [BSL] @ ''w]'' @ [BSL, BSL] @ ''w'')
   \<and> translateRegExpr (''a.c[.]'' @ [BSL] @ ''.'') False False = Some (''a.c[.]'' @ [BSL] @ ''.'')"
  using translateRegExpr_result [of "''a.c[.]'' @ [BSL] @ ''.''" True False]
    translateRegExpr_result [of "''a.c[.]'' @ [BSL] @ ''.''" False True]
    translateRegExpr_result [of "''a.c[.]'' @ [BSL] @ ''.''" False False]
  by (simp add: dots_to_word_class_def)

subsection \<open>Requests that do nothing\<close>

text \<open>Claim C5. A find request with a null or an empty pattern returns at once, for every
  document, range and flags: it returns the not-found sentinel, writes the length 0 to the
  caller's slot, calls nothing of the matcher (no build, no search), leaves the engine as it
  was, and is a regular return, not a fault.\<close>

theorem FindText_empty_pattern:
  assumes "pattern = None \<or> pattern = Some []"
  shows "FindText X K this doc minPos maxPos pattern caseSensitive word wordStart searchFlags len
           = Inr \<lparr> find_engine = this, find_return = ONIG_MISMATCH, find_length = 0,
                   find_calls = [] \<rparr>"
  using assms by (auto simp: FindText_def c_str_def ONIG_MISMATCH_def)

theorem FindText_empty_pattern_witness:
  "FindText literal_matcher example_h new_engine example_doc 0 20 (Some []) True False False 0 7
     = Inr \<lparr> find_engine = new_engine, find_return = -1, find_length = 0, find_calls = [] \<rparr>
   \<and> FindText literal_matcher example_h new_engine example_doc 0 20 None True False False 0 7
     = Inr \<lparr> find_engine = new_engine, find_return = -1, find_length = 0, find_calls = [] \<rparr>"
  using FindText_empty_pattern [of "Some []" literal_matcher example_h new_engine example_doc
      0 20 True False False 0 7]
    FindText_empty_pattern [of None literal_matcher example_h new_engine example_doc
      0 20 True False False 0 7]
  by (simp add: ONIG_MISMATCH_def)

text \<open>Claim C6. In every engine state whose stored match position is negative (no match is
  cached), a substitution request writes \<open>-1\<close> to the length slot and returns the null
  pointer; it is a regular return, and the engine, its substitution buffer included, is
  unchanged: no replacement bytes are produced.\<close>

theorem SubstituteByPosition_without_match:
  assumes "m_MatchPos this < 0"
  shows "SubstituteByPosition X this doc text
           = Inr \<lparr> subst_engine = this, subst_return = None, subst_length = -1 \<rparr>"
  using assms by (simp add: SubstituteByPosition_def)

theorem SubstituteByPosition_without_match_witness:
  "m_MatchPos new_engine < 0 \<and>
   SubstituteByPosition literal_matcher new_engine example_doc ''[$1-$2]''
     = Inr \<lparr> subst_engine = new_engine, subst_return = None, subst_length = -1 \<rparr>"
proof -
  have neg: "m_MatchPos new_engine < 0"
    by (simp add: new_engine_def CreateRegexSearch_def ONIG_MISMATCH_def)
  from neg SubstituteByPosition_without_match [OF neg, of literal_matcher example_doc "''[$1-$2]''"]
  show ?thesis by simp
qed

subsection \<open>The stages of a find request\<close>

lemma FindText_nonempty:
  assumes "p \<noteq> []"
  shows "FindText X K this doc minPos maxPos (Some p) caseSensitive word wordStart searchFlags len =
     (if bReCompile this (resolved_options X K doc minPos maxPos caseSensitive searchFlags)
           (effective_pattern p word wordStart)
      then recompile_and_search X this doc (minPos \<le> maxPos)
             (fst (search_range X doc minPos maxPos)) (snd (search_range X doc minPos maxPos))
             (resolved_options X K doc minPos maxPos caseSensitive searchFlags)
             (effective_pattern p word wordStart) len
      else search_stage X this doc (minPos \<le> maxPos)
             (fst (search_range X doc minPos maxPos)) (snd (search_range X doc minPos maxPos))
             (resolved_options X K doc minPos maxPos caseSensitive searchFlags) len [])"
  using assms by (simp add: FindText_def c_str_def translateRegExpr_effective Let_def)

lemma search_stage_live:
  assumes "search_stage X this doc fwd rb re opts len done = Inr out"
  obtains r where "m_RegExpr this = LiveRegex r"
  using assms by (cases "m_RegExpr this") (simp_all add: search_stage_def Let_def)

lemma search_stage_Inr:
  assumes "search_stage X this doc fwd rb re opts len done = Inr out"
  shows "\<exists>r. m_RegExpr this = LiveRegex r
           \<and> find_calls out = done @ [search_call X r doc fwd rb re opts]
           \<and> m_RegExpr (find_engine out) = LiveRegex r
           \<and> m_RegExprStrg (find_engine out) = m_RegExprStrg this
           \<and> m_CmplOptions (find_engine out) = m_CmplOptions this
           \<and> m_SubstBuffer (find_engine out) = m_SubstBuffer this"
proof -
  from assms obtain r where r: "m_RegExpr this = LiveRegex r" by (rule search_stage_live)
  show ?thesis
  proof (cases "onig_search X r (bytes doc) (if fwd then rb else re) (if fwd then re else rb) opts")
    case SearchThrows
    with assms r show ?thesis
      by (auto simp: search_stage_def search_call_def Let_def)
  next
    case (SearchReturns result region)
    with assms r show ?thesis
      by (cases region) (auto simp: search_stage_def search_call_def Let_def split: if_splits)
  qed
qed

text \<open>What the search stage returns and stores, by what \<open>onig_search\<close> did.\<close>

lemma search_stage_throws:
  assumes "search_stage X this doc fwd rb re opts len done = Inr out"
    and "m_RegExpr this = LiveRegex r"
    and "onig_search X r (bytes doc) (if fwd then rb else re) (if fwd then re else rb) opts
           = SearchThrows"
  shows "find_return out = -3 \<and> find_length out = len
           \<and> m_MatchPos (find_engine out) = ONIG_MISMATCH \<and> m_MatchLen (find_engine out) = 0
           \<and> m_Region (find_engine out) = []"
  using assms by (auto simp: search_stage_def Let_def)

lemma search_stage_returns:
  assumes "search_stage X this doc fwd rb re opts len done = Inr out"
    and "m_RegExpr this = LiveRegex r"
    and "onig_search X r (bytes doc) (if fwd then rb else re) (if fwd then re else rb) opts
           = SearchReturns result region"
  shows "m_Region (find_engine out) = region
     \<and> (if result < ONIG_MISMATCH then
           find_return out = -3 \<and> find_length out = len
             \<and> m_MatchPos (find_engine out) = ONIG_MISMATCH \<and> m_MatchLen (find_engine out) = 0
         else if 0 \<le> result \<and> rb \<le> re then
           (\<exists>e groups. region = (find_return out, e) # groups
              \<and> find_length out = e - find_return out
              \<and> m_MatchPos (find_engine out) = find_return out
              \<and> m_MatchLen (find_engine out) = find_length out)
         else
           find_return out = ONIG_MISMATCH \<and> find_length out = 0
             \<and> m_MatchPos (find_engine out) = ONIG_MISMATCH \<and> m_MatchLen (find_engine out) = 0)"
  using assms
  by (cases region) (auto simp: search_stage_def Let_def split: if_splits)

text \<open>The search stage run again on the engine it left gives the same result.\<close>

lemma search_stage_again:
  assumes "search_stage X this doc fwd rb re opts len done = Inr out"
  shows "search_stage X (find_engine out) doc fwd rb re opts len done'
           = Inr (out\<lparr>find_calls := done' @ [last (find_calls out)]\<rparr>)"
proof -
  from assms obtain r where r: "m_RegExpr this = LiveRegex r" by (rule search_stage_live)
  show ?thesis
  proof (cases "onig_search X r (bytes doc) (if fwd then rb else re) (if fwd then re else rb) opts")
    case SearchThrows
    with assms r show ?thesis
      by (auto simp: search_stage_def Let_def)
  next
    case (SearchReturns result region)
    with assms r show ?thesis
      by (cases region) (auto simp: search_stage_def Let_def split: if_splits)
  qed
qed

text \<open>The recompilation, by what \<open>onig_new\<close> did. A freed handle cannot be released again.\<close>

lemma recompile_not_freed:
  assumes "recompile_and_search X this doc fwd rb re opts s len = Inr out"
  shows "\<not> is_freed (m_RegExpr this)"
  using assms
  by (cases "m_RegExpr this") (simp_all add: recompile_and_search_def onig_free_def Let_def)

lemma recompile_throws_out:
  assumes "recompile_and_search X this doc fwd rb re opts s len = Inr out"
    and "onig_new X s opts (onigEncType (eolMode doc)) = NewThrows"
  shows "out = \<lparr> find_engine = this\<lparr>m_RegExprStrg := s, m_CmplOptions := opts, m_ErrorInfo := [],
                                   m_RegExpr := (case m_RegExpr this of
                                                   LiveRegex r \<Rightarrow> FreedRegex r
                                                 | other \<Rightarrow> NullRegex)\<rparr>,
                 find_return = -2, find_length = len,
                 find_calls = [Call_onig_free (m_RegExpr this),
                               Call_onig_new s opts (onigEncType (eolMode doc)) NewThrows] \<rparr>"
  using assms
  by (cases "m_RegExpr this") (auto simp: recompile_and_search_def onig_free_def Let_def)

lemma recompile_error:
  assumes "recompile_and_search X this doc fwd rb re opts s len = Inr out"
    and "onig_new X s opts (onigEncType (eolMode doc)) = NewError code"
  shows "code \<noteq> ONIG_NORMAL \<and>
         out = \<lparr> find_engine = this\<lparr>m_RegExprStrg := s, m_CmplOptions := opts,
                                   m_ErrorInfo := onig_error_code_to_str X code,
                                   m_RegExpr := NullRegex\<rparr>,
                 find_return = -2, find_length = len,
                 find_calls = [Call_onig_free (m_RegExpr this),
                               Call_onig_new s opts (onigEncType (eolMode doc)) (NewError code)] \<rparr>"
  using assms
  by (cases "m_RegExpr this")
     (auto simp: recompile_and_search_def onig_free_def search_stage_def Let_def split: if_splits)

lemma recompile_normal:
  assumes "recompile_and_search X this doc fwd rb re opts s len = Inr out"
    and "onig_new X s opts (onigEncType (eolMode doc)) = NewNormal r"
  shows "search_stage X (this\<lparr>m_RegExprStrg := s, m_CmplOptions := opts, m_ErrorInfo := [],
                               m_RegExpr := LiveRegex r\<rparr>) doc fwd rb re opts len
           [Call_onig_free (m_RegExpr this),
            Call_onig_new s opts (onigEncType (eolMode doc)) (NewNormal r)] = Inr out"
  using assms
  by (cases "m_RegExpr this") (simp_all add: recompile_and_search_def onig_free_def Let_def)





text \<open>A find request with a pattern on an engine whose handle was released: with the key
  of the engine it searches with the released handle, with any other key it releases the
  handle again.\<close>

lemma FindText_released:
  assumes "m_RegExpr this = FreedRegex r" and "p \<noteq> []"
  shows "FindText X K this doc minPos maxPos (Some p) cs w ws fl len
           = Inl (if m_CmplOptions this = resolved_options X K doc minPos maxPos cs fl
                     \<and> m_RegExprStrg this = effective_pattern p w ws
                  then UseAfterFree else DoubleFree)"
  using assms
  by (auto simp: FindText_nonempty bReCompile_def recompile_and_search_def onig_free_def
      search_stage_def Let_def)

text \<open>A find request on an engine without a freed handle leaves a freed handle only when
  \<open>onig_new\<close> threw after a live handle was released.\<close>

lemma FindText_freed_after_throw:
  assumes "FindText X K this doc minPos maxPos pattern cs w ws fl len = Inr out"
    and "\<not> is_freed (m_RegExpr this)"
    and "is_freed (m_RegExpr (find_engine out))"
  shows "\<exists>r s opts enc. m_RegExpr this = LiveRegex r
           \<and> find_calls out = [Call_onig_free (LiveRegex r), Call_onig_new s opts enc NewThrows]"
proof (cases "pattern = None \<or> pattern = Some []")
  case True
  then have "FindText X K this doc minPos maxPos pattern cs w ws fl len
      = Inr \<lparr> find_engine = this, find_return = -1, find_length = 0, find_calls = [] \<rparr>"
    by (auto simp: FindText_def c_str_def)
  with assms show ?thesis by auto
next
  case False
  then obtain p where p: "pattern = Some p" "p \<noteq> []" by auto
  let ?opts = "resolved_options X K doc minPos maxPos cs fl"
  let ?s = "effective_pattern p w ws"
  let ?rb = "fst (search_range X doc minPos maxPos)"
  let ?re = "snd (search_range X doc minPos maxPos)"
  show ?thesis
  proof (cases "bReCompile this ?opts ?s")
    case False
    with assms(1) p have "search_stage X this doc (minPos \<le> maxPos) ?rb ?re ?opts len [] = Inr out"
      by (simp add: FindText_nonempty)
    from search_stage_Inr [OF this] assms(3) show ?thesis by auto
  next
    case True
    with assms(1) p have rec: "recompile_and_search X this doc (minPos \<le> maxPos) ?rb ?re ?opts ?s len
        = Inr out"
      by (simp add: FindText_nonempty)
    show ?thesis
    proof (cases "onig_new X ?s ?opts (onigEncType (eolMode doc))")
      case (NewNormal r)
      from search_stage_Inr [OF recompile_normal [OF rec NewNormal]] assms(3) show ?thesis by auto
    next
      case (NewError code)
      from recompile_error [OF rec NewError] assms(3) show ?thesis by auto
    next
      case NewThrows
      with rec assms(3) show ?thesis
        by (cases "m_RegExpr this") (auto simp: recompile_and_search_def onig_free_def Let_def)
    qed
  qed
qed

text \<open>A find request returns when the engine holds no freed handle and the library keeps to
  its interface: an error code of \<open>onig_new\<close> is not \<open>ONIG_NORMAL\<close>, and a match of
  \<open>onig_search\<close> comes with a region that holds group 0.\<close>

lemma FindText_returns:
  assumes "\<not> is_freed (m_RegExpr this)"
    and "\<And>s opts enc. onig_new X s opts enc \<noteq> NewError ONIG_NORMAL"
    and "\<And>r str start rng opts result. onig_search X r str start rng opts = SearchReturns result []
            \<Longrightarrow> result < 0"
  shows "\<exists>out. FindText X K this doc minPos maxPos pattern cs w ws fl len = Inr out"
proof (cases "pattern = None \<or> pattern = Some []")
  case True
  then show ?thesis by (auto simp: FindText_def c_str_def)
next
  case False
  then obtain p where p: "pattern = Some p" "p \<noteq> []" by auto
  let ?opts = "resolved_options X K doc minPos maxPos cs fl"
  let ?s = "effective_pattern p w ws"
  let ?rb = "fst (search_range X doc minPos maxPos)"
  let ?re = "snd (search_range X doc minPos maxPos)"
  have searches: "\<exists>out. search_stage X this' doc (minPos \<le> maxPos) ?rb ?re ?opts len before = Inr out"
    if "m_RegExpr this' = LiveRegex r" for this' r before
  proof (cases "onig_search X r (bytes doc) (if minPos \<le> maxPos then ?rb else ?re)
                  (if minPos \<le> maxPos then ?re else ?rb) ?opts")
    case SearchThrows
    with that show ?thesis by (simp add: search_stage_def Let_def)
  next
    case (SearchReturns result region)
    show ?thesis
    proof (cases region)
      case Nil
      with SearchReturns assms(3) have "result < 0" by blast
      with that SearchReturns Nil show ?thesis
        by (simp add: search_stage_def Let_def)
    next
      case (Cons g groups)
      with that SearchReturns show ?thesis
        by (cases g) (simp add: search_stage_def Let_def)
    qed
  qed
  show ?thesis
  proof (cases "bReCompile this ?opts ?s")
    case False
    with assms(1) obtain r where "m_RegExpr this = LiveRegex r"
      by (cases "m_RegExpr this") (auto simp: bReCompile_def)
    from searches [OF this] False p show ?thesis
      by (simp add: FindText_nonempty)
  next
    case True
    from assms(1) obtain freed where freed: "onig_free (m_RegExpr this) = Inr freed"
      by (cases "m_RegExpr this") (auto simp: onig_free_def)
    show ?thesis
    proof (cases "onig_new X ?s ?opts (onigEncType (eolMode doc))")
      case (NewNormal r)
      have "m_RegExpr (this\<lparr>m_RegExprStrg := ?s, m_CmplOptions := ?opts, m_ErrorInfo := [],
                            m_RegExpr := LiveRegex r\<rparr>) = LiveRegex r"
        by simp
      from searches [OF this] True p freed NewNormal show ?thesis
        by (simp add: FindText_nonempty recompile_and_search_def Let_def)
    next
      case (NewError code)
      with assms(2) have "code \<noteq> ONIG_NORMAL" by metis
      with True p freed NewError show ?thesis
        by (simp add: FindText_nonempty recompile_and_search_def Let_def)
    next
      case NewThrows
      with True p freed show ?thesis
        by (simp add: FindText_nonempty recompile_and_search_def Let_def)
    qed
  qed
qed

subsection \<open>Find requests on the example library\<close>

lemma run_cat:
  "FindText literal_matcher example_h new_engine example_doc 0 20 (Some ''cat'') True False False 0 7
     = Inr \<lparr> find_engine = cat_engine, find_return = 3, find_length = 3,
             find_calls = [Call_onig_free NullRegex,
                           Call_onig_new ''cat'' 64 ONIG_ENCODING_UTF8 (NewNormal ''cat''),
                           Call_onig_search ''cat'' 0 20 64 (SearchReturns 3 [(3, 6)])] \<rparr>"
  by (simp add: eval_defs)



lemma run_refused:
  "FindText literal_matcher example_h new_engine example_doc 0 20 (Some ''(abc'') True False False 0 7
     = Inr \<lparr> find_engine = refused_engine, find_return = -2, find_length = 7,
             find_calls = [Call_onig_free NullRegex,
                           Call_onig_new ''(abc'' 64 ONIG_ENCODING_UTF8 (NewError (-117))] \<rparr>"
  by (simp add: eval_defs)

lemma run_after_refused:
  "FindText literal_matcher example_h refused_engine example_doc 0 20 (Some ''cat'') True False False 0 7
     = Inr \<lparr> find_engine = cat_engine, find_return = 3, find_length = 3,
             find_calls = [Call_onig_free NullRegex,
                           Call_onig_new ''cat'' 64 ONIG_ENCODING_UTF8 (NewNormal ''cat''),
                           Call_onig_search ''cat'' 0 20 64 (SearchReturns 3 [(3, 6)])] \<rparr>"
  by (simp add: eval_defs)

lemma run_throws:
  "FindText throwing_matcher example_h new_engine example_doc 0 20 (Some ''abc'') True False False 0 7
     = Inr \<lparr> find_engine = new_engine\<lparr>m_RegExprStrg := ''abc'', m_CmplOptions := 64\<rparr>,
             find_return = -2, find_length = 7,
             find_calls = [Call_onig_free NullRegex,
                           Call_onig_new ''abc'' 64 ONIG_ENCODING_UTF8 NewThrows] \<rparr>"
  by (simp add: eval_defs)

lemma run_dog:
  "FindText literal_matcher example_h cat_engine example_doc 0 20 (Some ''dog'') True False False 0 7
     = Inr \<lparr> find_engine = \<lparr> m_RegExprStrg = ''dog'', m_CmplOptions = 64, m_RegExpr = LiveRegex ''dog'',
                              m_Region = [], m_ErrorInfo = [], m_MatchPos = -1, m_MatchLen = 0,
                              m_SubstBuffer = [] \<rparr>,
             find_return = -1, find_length = 0,
             find_calls = [Call_onig_free (LiveRegex ''cat''),
                           Call_onig_new ''dog'' 64 ONIG_ENCODING_UTF8 (NewNormal ''dog''),
                           Call_onig_search ''dog'' 0 20 64 (SearchReturns (-1) [])] \<rparr>"
  by (simp add: eval_defs)

lemma run_failing:
  "FindText failing_matcher example_h cat_engine example_doc 0 20 (Some ''cat'') True False False 0 7
     = Inr \<lparr> find_engine = cat_engine\<lparr>m_Region := [], m_ErrorInfo := ''error'', m_MatchPos := -1,
                                       m_MatchLen := 0\<rparr>,
             find_return = -3, find_length = 7,
             find_calls = [Call_onig_search ''cat'' 0 20 64 (SearchReturns (-15) [])] \<rparr>"
  by (simp add: eval_defs)

lemma run_empty:
  "FindText literal_matcher example_h cat_engine example_doc 0 20 (Some []) True False False 0 7
     = Inr \<lparr> find_engine = cat_engine, find_return = -1, find_length = 0, find_calls = [] \<rparr>"
  by (simp add: FindText_def c_str_def)

lemma subst_cat:
  "SubstituteByPosition literal_matcher cat_engine example_doc ''<$0>''
     = Inr \<lparr> subst_engine = cat_engine\<lparr>m_SubstBuffer := ''<cat>''\<rparr>,
             subst_return = Some ''<cat>'', subst_length = 5 \<rparr>"
  by (simp add: SubstituteByPosition_def convertReplExpr_def convertReplExpr_loop.simps
      convertReplExpr_body_def SubstituteByPosition_loop.simps SubstituteByPosition_body_def
      at_def is_digit_def digit_val_def num_regs_def append_group_def append_range_def Length_def
      cat_engine_def example_doc_def Let_def)

lemma run_faulting:
  "FindText faulting_matcher example_h cat_engine example_doc 0 20 (Some ''x+'') True False False 0 7
     = Inr \<lparr> find_engine = released_engine, find_return = -2, find_length = 7,
             find_calls = [Call_onig_free (LiveRegex ''cat''),
                           Call_onig_new ''x+'' 64 ONIG_ENCODING_UTF8 NewThrows] \<rparr>"
  by (simp add: eval_defs)

lemma run_faulting_again:
  "FindText faulting_matcher example_h released_engine example_doc 0 20 (Some ''x+'') True False False 0 7
     = Inl UseAfterFree"
  by (simp add: eval_defs)

lemma run_after_faulting:
  "FindText faulting_matcher example_h released_engine example_doc 0 20 (Some ''dog'') True False False 0 7
     = Inl DoubleFree"
  by (simp add: eval_defs)

lemma run_refused_after_cat:
  "FindText literal_matcher example_h cat_engine example_doc 0 20 (Some ''(abc'') True False False 0 7
     = Inr \<lparr> find_engine = refused_after_cat, find_return = -2, find_length = 7,
             find_calls = [Call_onig_free (LiveRegex ''cat''),
                           Call_onig_new ''(abc'' 64 ONIG_ENCODING_UTF8 (NewError (-117))] \<rparr>"
  by (simp add: eval_defs)

lemma run_scat_after_refused:
  "FindText literal_matcher example_h refused_after_cat example_doc 0 20 (Some ''scat'') True False False 0 7
     = Inr \<lparr> find_engine = \<lparr> m_RegExprStrg = ''scat'', m_CmplOptions = 64,
                              m_RegExpr = LiveRegex ''scat'', m_Region = [(16, 20)], m_ErrorInfo = [],
                              m_MatchPos = 16, m_MatchLen = 4, m_SubstBuffer = [] \<rparr>,
             find_return = 16, find_length = 4,
             find_calls = [Call_onig_free NullRegex,
                           Call_onig_new ''scat'' 64 ONIG_ENCODING_UTF8 (NewNormal ''scat''),
                           Call_onig_search ''scat'' 0 20 64 (SearchReturns 16 [(16, 20)])] \<rparr>"
  by (simp add: eval_defs)



lemma substitute_after_refusal:
  "SubstituteByPosition literal_matcher refused_after_cat example_doc ''${n}'' = Inl NullDereference"
  by (simp add: SubstituteByPosition_def convertReplExpr_def convertReplExpr_loop.simps
      convertReplExpr_body_def SubstituteByPosition_loop.simps SubstituteByPosition_body_def
      at_def is_digit_def digit_val_def num_regs_def append_group_def append_range_def Length_def
      refused_after_cat_def example_doc_def Let_def name_start_def name_to_backref_def
      scan_name.simps literal_matcher_def)

subsection \<open>The compiled-pattern cache\<close>




text \<open>Claim C9 against the code. For every document, range, pattern and flags, when a find
  request returns, the same request on the engine it left returns the same position, writes
  the same length and leaves the engine as it was (match region, position and length
  included), although the first request may have built the pattern and the second finds it
  in the cache; with one exception, where the code fails the claim. When the first request
  has a pattern and leaves a released handle in the engine, which happens when \<open>onig_new\<close>
  threw after \<open>onig_free\<close> had released a live handle (the \<^verbatim>\<open>catch\<close> returns \<open>-2\<close> and
  \<open>m_RegExpr\<close> is not reset), the second request finds its key in the cache and searches
  with the released handle.\<close>

theorem FindText_twice:
  assumes "FindText X K this doc minPos maxPos pattern cs w ws fl len = Inr out"
  shows "if is_freed (m_RegExpr (find_engine out)) \<and> c_str pattern \<noteq> []
         then find_return out = -2
            \<and> (\<exists>r s opts enc. m_RegExpr this = LiveRegex r
                  \<and> m_RegExpr (find_engine out) = FreedRegex r
                  \<and> find_calls out = [Call_onig_free (LiveRegex r), Call_onig_new s opts enc NewThrows])
            \<and> FindText X K (find_engine out) doc minPos maxPos pattern cs w ws fl len
                 = Inl UseAfterFree
         else (\<exists>out'. FindText X K (find_engine out) doc minPos maxPos pattern cs w ws fl len = Inr out'
                 \<and> find_return out' = find_return out \<and> find_length out' = find_length out
                 \<and> m_Region (find_engine out') = m_Region (find_engine out)
                 \<and> find_engine out' = find_engine out)"
proof (cases "pattern = None \<or> pattern = Some []")
  case True
  with assms(1) show ?thesis
    by (auto simp: FindText_def c_str_def)
next
  case False
  then obtain p where p: "pattern = Some p" "p \<noteq> []" by auto
  then have nonempty: "c_str pattern \<noteq> []" by (simp add: c_str_def)
  let ?opts = "resolved_options X K doc minPos maxPos cs fl"
  let ?s = "effective_pattern p w ws"
  let ?rb = "fst (search_range X doc minPos maxPos)"
  let ?re = "snd (search_range X doc minPos maxPos)"
  let ?same = "\<exists>out'. FindText X K (find_engine out) doc minPos maxPos pattern cs w ws fl len = Inr out'
                 \<and> find_return out' = find_return out \<and> find_length out' = find_length out
                 \<and> m_Region (find_engine out') = m_Region (find_engine out)
                 \<and> find_engine out' = find_engine out"
  have again: "\<not> is_freed (m_RegExpr (find_engine out)) \<and> ?same"
    if stage: "search_stage X this' doc (minPos \<le> maxPos) ?rb ?re ?opts len before = Inr out"
      and key: "m_CmplOptions this' = ?opts" "m_RegExprStrg this' = ?s" for this' before
  proof -
    from search_stage_Inr [OF stage] key
    have live: "\<not> is_freed (m_RegExpr (find_engine out))"
      and "\<not> bReCompile (find_engine out) ?opts ?s" by (auto simp: bReCompile_def)
    then have "FindText X K (find_engine out) doc minPos maxPos pattern cs w ws fl len
        = search_stage X (find_engine out) doc (minPos \<le> maxPos) ?rb ?re ?opts len []"
      using p by (simp add: FindText_nonempty)
    with search_stage_again [OF stage, of "[]"] live show ?thesis by simp
  qed
  have "\<not> is_freed (m_RegExpr (find_engine out)) \<and> ?same
      \<or> (is_freed (m_RegExpr (find_engine out)) \<and> find_return out = -2
            \<and> (\<exists>r s opts enc. m_RegExpr this = LiveRegex r
                  \<and> m_RegExpr (find_engine out) = FreedRegex r
                  \<and> find_calls out = [Call_onig_free (LiveRegex r), Call_onig_new s opts enc NewThrows])
            \<and> FindText X K (find_engine out) doc minPos maxPos pattern cs w ws fl len
                 = Inl UseAfterFree)"
  proof (cases "bReCompile this ?opts ?s")
    case False
    with assms(1) p have "search_stage X this doc (minPos \<le> maxPos) ?rb ?re ?opts len [] = Inr out"
      by (simp add: FindText_nonempty)
    moreover from False have "m_CmplOptions this = ?opts" "m_RegExprStrg this = ?s"
      by (simp_all add: bReCompile_def)
    ultimately show ?thesis using again by blast
  next
    case True
    with assms(1) p have rec: "recompile_and_search X this doc (minPos \<le> maxPos) ?rb ?re ?opts ?s len
        = Inr out"
      by (simp add: FindText_nonempty)
    show ?thesis
    proof (cases "onig_new X ?s ?opts (onigEncType (eolMode doc))")
      case (NewNormal r)
      from recompile_normal [OF rec NewNormal] have "\<not> is_freed (m_RegExpr (find_engine out)) \<and> ?same"
        by (rule again) simp_all
      then show ?thesis by blast
    next
      case (NewError code)
      from recompile_error [OF rec NewError]
      have code: "code \<noteq> ONIG_NORMAL"
        and out: "out = \<lparr> find_engine = this\<lparr>m_RegExprStrg := ?s, m_CmplOptions := ?opts,
                                   m_ErrorInfo := onig_error_code_to_str X code,
                                   m_RegExpr := NullRegex\<rparr>,
                 find_return = -2, find_length = len,
                 find_calls = [Call_onig_free (m_RegExpr this),
                               Call_onig_new ?s ?opts (onigEncType (eolMode doc)) (NewError code)] \<rparr>"
        by simp_all
      have "\<not> is_freed (m_RegExpr (find_engine out)) \<and> ?same"
        using p NewError code
        by (simp add: out FindText_nonempty bReCompile_def recompile_and_search_def onig_free_def)
      then show ?thesis by blast
    next
      case NewThrows
      note out = recompile_throws_out [OF rec NewThrows]
      from recompile_not_freed [OF rec] have not_freed: "\<not> is_freed (m_RegExpr this)" .
      show ?thesis
      proof (cases "m_RegExpr this")
        case NullRegex
        with out have out': "out = \<lparr> find_engine = this\<lparr>m_RegExprStrg := ?s, m_CmplOptions := ?opts,
                                   m_ErrorInfo := [], m_RegExpr := NullRegex\<rparr>,
                 find_return = -2, find_length = len,
                 find_calls = [Call_onig_free NullRegex,
                               Call_onig_new ?s ?opts (onigEncType (eolMode doc)) NewThrows] \<rparr>"
          by simp
        have "\<not> is_freed (m_RegExpr (find_engine out)) \<and> ?same"
          using p NewThrows
          by (simp add: out' FindText_nonempty bReCompile_def recompile_and_search_def onig_free_def)
        then show ?thesis by blast
      next
        case (LiveRegex r)
        with out have out': "out = \<lparr> find_engine = this\<lparr>m_RegExprStrg := ?s, m_CmplOptions := ?opts,
                                   m_ErrorInfo := [], m_RegExpr := FreedRegex r\<rparr>,
                 find_return = -2, find_length = len,
                 find_calls = [Call_onig_free (LiveRegex r),
                               Call_onig_new ?s ?opts (onigEncType (eolMode doc)) NewThrows] \<rparr>"
          by simp
        have freed: "m_RegExpr (find_engine out) = FreedRegex r"
          by (simp add: out')
        have key: "m_CmplOptions (find_engine out) = ?opts" "m_RegExprStrg (find_engine out) = ?s"
          by (simp_all add: out')
        have "FindText X K (find_engine out) doc minPos maxPos pattern cs w ws fl len = Inl UseAfterFree"
          using FindText_released [OF freed p(2), of X K doc minPos maxPos cs w ws fl len] key p(1)
          by simp
        moreover have "find_return out = -2" by (simp add: out')
        moreover have "find_calls out = [Call_onig_free (LiveRegex r),
            Call_onig_new ?s ?opts (onigEncType (eolMode doc)) NewThrows]"
          by (simp add: out')
        ultimately show ?thesis using freed LiveRegex by auto
      next
        case (FreedRegex r)
        with not_freed show ?thesis by simp
      qed
    qed
  qed
  with nonempty show ?thesis by auto
qed

theorem FindText_twice_witness:
  "FindText faulting_matcher example_h cat_engine example_doc 0 20 (Some ''x+'') True False False 0 7
     = Inr \<lparr> find_engine = released_engine, find_return = -2, find_length = 7,
             find_calls = [Call_onig_free (LiveRegex ''cat''),
                           Call_onig_new ''x+'' 64 ONIG_ENCODING_UTF8 NewThrows] \<rparr>
   \<and> is_freed (m_RegExpr released_engine) \<and> c_str (Some ''x+'') \<noteq> []
   \<and> FindText faulting_matcher example_h released_engine example_doc 0 20 (Some ''x+'') True False
        False 0 7 = Inl UseAfterFree
   \<and> FindText literal_matcher example_h new_engine example_doc 0 20 (Some ''cat'') True False False 0 7
     = Inr \<lparr> find_engine = cat_engine, find_return = 3, find_length = 3,
             find_calls = [Call_onig_free NullRegex,
                           Call_onig_new ''cat'' 64 ONIG_ENCODING_UTF8 (NewNormal ''cat''),
                           Call_onig_search ''cat'' 0 20 64 (SearchReturns 3 [(3, 6)])] \<rparr>
   \<and> \<not> is_freed (m_RegExpr cat_engine)
   \<and> (\<exists>out'. FindText literal_matcher example_h cat_engine example_doc 0 20 (Some ''cat'') True False
                False 0 7 = Inr out'
          \<and> find_return out' = 3 \<and> find_length out' = 3 \<and> find_engine out' = cat_engine)"
proof -
  have freed: "is_freed (m_RegExpr released_engine) \<and> c_str (Some ''x+'') \<noteq> []"
    by (simp add: released_engine_def c_str_def)
  have live: "\<not> is_freed (m_RegExpr cat_engine)"
    by (simp add: cat_engine_def)
  from FindText_twice [OF run_faulting] freed
  have fault: "FindText faulting_matcher example_h released_engine example_doc 0 20 (Some ''x+'') True
      False False 0 7 = Inl UseAfterFree"
    by simp
  from FindText_twice [OF run_cat] live
  have same: "\<exists>out'. FindText literal_matcher example_h cat_engine example_doc 0 20 (Some ''cat'') True False
                False 0 7 = Inr out'
          \<and> find_return out' = 3 \<and> find_length out' = 3 \<and> find_engine out' = cat_engine"
    by auto
  from run_faulting freed fault run_cat live same show ?thesis
    by simp
qed

text \<open>Claim C2 against the code. For every engine state, when a find request rebuilds the
  pattern and the build fails (\<open>onig_new\<close> returns an error code or throws), the request
  returns \<open>-2\<close>, the old handle was not released before and is released once, and the
  stored match is left as it was. When \<open>onig_new\<close> returned an error code, or the engine
  held no compiled pattern, the engine is left with the null handle, and a later find request
  with any pattern that \<open>onig_new\<close> accepts builds that pattern and returns the match that
  \<open>onig_search\<close> reports for it. When \<open>onig_new\<close> threw and the engine held a compiled
  pattern, the code fails the claim: the handle still points to the pattern that
  \<open>onig_free\<close> released, and every later find request with a pattern follows it, releasing
  it a second time when its key differs from the stored one and searching with it
  otherwise.\<close>

theorem failed_recompilation:
  assumes "FindText X K this doc minPos maxPos (Some p) cs w ws fl len = Inr out" and "p \<noteq> []"
    and "bReCompile this (resolved_options X K doc minPos maxPos cs fl) (effective_pattern p w ws)"
    and "\<forall>r. onig_new X (effective_pattern p w ws) (resolved_options X K doc minPos maxPos cs fl)
           (onigEncType (eolMode doc)) \<noteq> NewNormal r"
  shows "find_return out = -2 \<and> find_length out = len
       \<and> \<not> is_freed (m_RegExpr this)
       \<and> find_calls out =
           [Call_onig_free (m_RegExpr this),
            Call_onig_new (effective_pattern p w ws) (resolved_options X K doc minPos maxPos cs fl)
              (onigEncType (eolMode doc))
              (onig_new X (effective_pattern p w ws) (resolved_options X K doc minPos maxPos cs fl)
                 (onigEncType (eolMode doc)))]
       \<and> m_MatchPos (find_engine out) = m_MatchPos this
       \<and> m_MatchLen (find_engine out) = m_MatchLen this
       \<and> m_Region (find_engine out) = m_Region this
       \<and> (if onig_new X (effective_pattern p w ws) (resolved_options X K doc minPos maxPos cs fl)
                (onigEncType (eolMode doc)) = NewThrows
              \<and> m_RegExpr this \<noteq> NullRegex
           then (\<exists>r. m_RegExpr this = LiveRegex r \<and> m_RegExpr (find_engine out) = FreedRegex r)
              \<and> (\<forall>doc' minPos' maxPos' p' cs' w' ws' fl' len'. p' \<noteq> [] \<longrightarrow>
                    FindText X K (find_engine out) doc' minPos' maxPos' (Some p') cs' w' ws' fl' len'
                      = Inl (if resolved_options X K doc' minPos' maxPos' cs' fl'
                                  = resolved_options X K doc minPos maxPos cs fl
                                \<and> effective_pattern p' w' ws' = effective_pattern p w ws
                             then UseAfterFree else DoubleFree))
           else m_RegExpr (find_engine out) = NullRegex
              \<and> (\<forall>doc' minPos' maxPos' p' cs' w' ws' fl' len' r' result b e groups.
                    p' \<noteq> []
                    \<and> onig_new X (effective_pattern p' w' ws')
                         (resolved_options X K doc' minPos' maxPos' cs' fl') (onigEncType (eolMode doc'))
                        = NewNormal r'
                    \<and> onig_search X r' (bytes doc')
                         (if minPos' \<le> maxPos' then fst (search_range X doc' minPos' maxPos')
                          else snd (search_range X doc' minPos' maxPos'))
                         (if minPos' \<le> maxPos' then snd (search_range X doc' minPos' maxPos')
                          else fst (search_range X doc' minPos' maxPos'))
                         (resolved_options X K doc' minPos' maxPos' cs' fl')
                        = SearchReturns result ((b, e) # groups)
                    \<and> 0 \<le> result
                    \<and> fst (search_range X doc' minPos' maxPos') \<le> snd (search_range X doc' minPos' maxPos')
                    \<longrightarrow>
                    (\<exists>out'. FindText X K (find_engine out) doc' minPos' maxPos' (Some p') cs' w' ws' fl' len'
                               = Inr out'
                       \<and> find_return out' = b \<and> find_length out' = e - b
                       \<and> m_RegExpr (find_engine out') = LiveRegex r'
                       \<and> list_ex is_onig_new (find_calls out'))))"
proof -
  let ?opts = "resolved_options X K doc minPos maxPos cs fl"
  let ?s = "effective_pattern p w ws"
  let ?new = "onig_new X ?s ?opts (onigEncType (eolMode doc))"
  from assms(1-3) have rec: "recompile_and_search X this doc (minPos \<le> maxPos)
      (fst (search_range X doc minPos maxPos)) (snd (search_range X doc minPos maxPos)) ?opts ?s len
        = Inr out"
    by (simp add: FindText_nonempty)
  from recompile_not_freed [OF rec] have not_freed: "\<not> is_freed (m_RegExpr this)" .
  have later: "\<exists>out'. FindText X K (find_engine out) doc' minPos' maxPos' (Some p') cs' w' ws' fl' len'
                        = Inr out'
                \<and> find_return out' = b \<and> find_length out' = e - b
                \<and> m_RegExpr (find_engine out') = LiveRegex r'
                \<and> list_ex is_onig_new (find_calls out')"
    if "m_RegExpr (find_engine out) = NullRegex" and "p' \<noteq> []"
      and "onig_new X (effective_pattern p' w' ws')
                  (resolved_options X K doc' minPos' maxPos' cs' fl') (onigEncType (eolMode doc'))
                 = NewNormal r'"
      and "onig_search X r' (bytes doc')
                  (if minPos' \<le> maxPos' then fst (search_range X doc' minPos' maxPos')
                   else snd (search_range X doc' minPos' maxPos'))
                  (if minPos' \<le> maxPos' then snd (search_range X doc' minPos' maxPos')
                   else fst (search_range X doc' minPos' maxPos'))
                  (resolved_options X K doc' minPos' maxPos' cs' fl')
                 = SearchReturns result ((b, e) # groups)"
      and "0 \<le> result"
      and "fst (search_range X doc' minPos' maxPos') \<le> snd (search_range X doc' minPos' maxPos')"
    for doc' minPos' maxPos' p' cs' w' ws' fl' len' r' result b e groups
    using that
    by (simp add: FindText_nonempty bReCompile_def recompile_and_search_def onig_free_def
        search_stage_def Let_def ONIG_MISMATCH_def)
  show ?thesis
  proof (cases ?new)
    case (NewNormal r)
    with assms(4) show ?thesis by simp
  next
    case (NewError code)
    from recompile_error [OF rec NewError]
    have out: "out = \<lparr> find_engine = this\<lparr>m_RegExprStrg := ?s, m_CmplOptions := ?opts,
                                   m_ErrorInfo := onig_error_code_to_str X code,
                                   m_RegExpr := NullRegex\<rparr>,
                 find_return = -2, find_length = len,
                 find_calls = [Call_onig_free (m_RegExpr this),
                               Call_onig_new ?s ?opts (onigEncType (eolMode doc)) (NewError code)] \<rparr>"
      by simp
    have null: "m_RegExpr (find_engine out) = NullRegex" by (simp add: out)
    from not_freed later [OF null] NewError show ?thesis
      by (simp add: out)
  next
    case NewThrows
    note thrown = recompile_throws_out [OF rec NewThrows]
    show ?thesis
    proof (cases "m_RegExpr this")
      case NullRegex
      with thrown have out: "out = \<lparr> find_engine = this\<lparr>m_RegExprStrg := ?s, m_CmplOptions := ?opts,
                                   m_ErrorInfo := [], m_RegExpr := NullRegex\<rparr>,
                 find_return = -2, find_length = len,
                 find_calls = [Call_onig_free NullRegex,
                               Call_onig_new ?s ?opts (onigEncType (eolMode doc)) NewThrows] \<rparr>"
        by simp
      have null: "m_RegExpr (find_engine out) = NullRegex" by (simp add: out)
      from later [OF null] NewThrows NullRegex show ?thesis
        by (simp add: out)
    next
      case (LiveRegex r)
      with thrown have out: "out = \<lparr> find_engine = this\<lparr>m_RegExprStrg := ?s, m_CmplOptions := ?opts,
                                   m_ErrorInfo := [], m_RegExpr := FreedRegex r\<rparr>,
                 find_return = -2, find_length = len,
                 find_calls = [Call_onig_free (LiveRegex r),
                               Call_onig_new ?s ?opts (onigEncType (eolMode doc)) NewThrows] \<rparr>"
        by simp
      have freed: "m_RegExpr (find_engine out) = FreedRegex r" by (simp add: out)
      have key: "m_CmplOptions (find_engine out) = ?opts" "m_RegExprStrg (find_engine out) = ?s"
        by (simp_all add: out)
      have faults: "FindText X K (find_engine out) doc' minPos' maxPos' (Some p') cs' w' ws' fl' len'
                      = Inl (if resolved_options X K doc' minPos' maxPos' cs' fl' = ?opts
                                \<and> effective_pattern p' w' ws' = ?s
                             then UseAfterFree else DoubleFree)"
        if "p' \<noteq> []" for doc' minPos' maxPos' p' cs' w' ws' fl' len'
        using FindText_released [OF freed that, of X K doc' minPos' maxPos' cs' w' ws' fl' len'] key
        by (auto simp: eq_commute)
      have rest: "find_return out = -2 \<and> find_length out = len
          \<and> find_calls out = [Call_onig_free (m_RegExpr this),
                Call_onig_new ?s ?opts (onigEncType (eolMode doc)) ?new]
          \<and> m_MatchPos (find_engine out) = m_MatchPos this
          \<and> m_MatchLen (find_engine out) = m_MatchLen this
          \<and> m_Region (find_engine out) = m_Region this"
        using NewThrows LiveRegex by (simp add: out)
      from rest not_freed freed faults NewThrows LiveRegex show ?thesis
        by simp
    next
      case (FreedRegex r)
      with not_freed show ?thesis by simp
    qed
  qed
qed

theorem failed_recompilation_witness:
  "FindText faulting_matcher example_h cat_engine example_doc 0 20 (Some ''x+'') True False False 0 7
     = Inr \<lparr> find_engine = released_engine, find_return = -2, find_length = 7,
             find_calls = [Call_onig_free (LiveRegex ''cat''),
                           Call_onig_new ''x+'' 64 ONIG_ENCODING_UTF8 NewThrows] \<rparr>
   \<and> bReCompile cat_engine (resolved_options faulting_matcher example_h example_doc 0 20 True 0)
        (effective_pattern ''x+'' False False)
   \<and> (\<forall>r. onig_new faulting_matcher (effective_pattern ''x+'' False False)
        (resolved_options faulting_matcher example_h example_doc 0 20 True 0)
        (onigEncType (eolMode example_doc)) \<noteq> NewNormal r)
   \<and> m_RegExpr cat_engine = LiveRegex ''cat'' \<and> m_RegExpr released_engine = FreedRegex ''cat''
   \<and> FindText faulting_matcher example_h released_engine example_doc 0 20 (Some ''dog'') True False
        False 0 7 = Inl DoubleFree
   \<and> FindText literal_matcher example_h cat_engine example_doc 0 20 (Some ''(abc'') True False False 0 7
     = Inr \<lparr> find_engine = refused_after_cat, find_return = -2, find_length = 7,
             find_calls = [Call_onig_free (LiveRegex ''cat''),
                           Call_onig_new ''(abc'' 64 ONIG_ENCODING_UTF8 (NewError (-117))] \<rparr>
   \<and> m_RegExpr refused_after_cat = NullRegex \<and> m_MatchPos refused_after_cat = 3
   \<and> (\<exists>out'. FindText literal_matcher example_h refused_after_cat example_doc 0 20 (Some ''scat'')
                 True False False 0 7 = Inr out'
          \<and> find_return out' = 16 \<and> find_length out' = 20 - 16
          \<and> m_RegExpr (find_engine out') = LiveRegex ''scat''
          \<and> list_ex is_onig_new (find_calls out'))"
proof -
  have thrown: "''x+'' \<noteq> []
      \<and> bReCompile cat_engine (resolved_options faulting_matcher example_h example_doc 0 20 True 0)
          (effective_pattern ''x+'' False False)
      \<and> (\<forall>r. onig_new faulting_matcher (effective_pattern ''x+'' False False)
          (resolved_options faulting_matcher example_h example_doc 0 20 True 0)
          (onigEncType (eolMode example_doc)) \<noteq> NewNormal r)
      \<and> onig_new faulting_matcher (effective_pattern ''x+'' False False)
          (resolved_options faulting_matcher example_h example_doc 0 20 True 0)
          (onigEncType (eolMode example_doc)) = NewThrows
      \<and> m_RegExpr cat_engine = LiveRegex ''cat'' \<and> m_RegExpr released_engine = FreedRegex ''cat''"
    by (simp add: bReCompile_def cat_engine_def released_engine_def faulting_matcher_def
        effective_pattern_def)
  have refused: "''(abc'' \<noteq> []
      \<and> bReCompile cat_engine (resolved_options literal_matcher example_h example_doc 0 20 True 0)
          (effective_pattern ''(abc'' False False)
      \<and> (\<forall>r. onig_new literal_matcher (effective_pattern ''(abc'' False False)
          (resolved_options literal_matcher example_h example_doc 0 20 True 0)
          (onigEncType (eolMode example_doc)) \<noteq> NewNormal r)
      \<and> onig_new literal_matcher (effective_pattern ''(abc'' False False)
          (resolved_options literal_matcher example_h example_doc 0 20 True 0)
          (onigEncType (eolMode example_doc)) = NewError (-117)
      \<and> m_RegExpr refused_after_cat = NullRegex \<and> m_MatchPos refused_after_cat = 3"
    by (simp add: bReCompile_def cat_engine_def refused_after_cat_def literal_matcher_def
        effective_pattern_def)
  have valid: "''scat'' \<noteq> []
      \<and> onig_new literal_matcher (effective_pattern ''scat'' False False)
           (resolved_options literal_matcher example_h example_doc 0 20 True 0)
           (onigEncType (eolMode example_doc)) = NewNormal ''scat''
      \<and> onig_search literal_matcher ''scat'' (bytes example_doc)
           (if (0::int) \<le> 20 then fst (search_range literal_matcher example_doc 0 20)
            else snd (search_range literal_matcher example_doc 0 20))
           (if (0::int) \<le> 20 then snd (search_range literal_matcher example_doc 0 20)
            else fst (search_range literal_matcher example_doc 0 20))
           (resolved_options literal_matcher example_h example_doc 0 20 True 0)
          = SearchReturns 16 ((16, 20) # [])
      \<and> (0::int) \<le> 16
      \<and> fst (search_range literal_matcher example_doc 0 20)
          \<le> snd (search_range literal_matcher example_doc 0 20)"
    by (simp add: literal_matcher_def effective_pattern_def search_range_def literal_search_def
        example_doc_def string_find_def)
  have not_thrown: "\<not> (onig_new literal_matcher (effective_pattern ''(abc'' False False)
          (resolved_options literal_matcher example_h example_doc 0 20 True 0)
          (onigEncType (eolMode example_doc)) = NewThrows
        \<and> m_RegExpr cat_engine \<noteq> NullRegex)"
    using refused by simp
  have was_live: "onig_new faulting_matcher (effective_pattern ''x+'' False False)
          (resolved_options faulting_matcher example_h example_doc 0 20 True 0)
          (onigEncType (eolMode example_doc)) = NewThrows
        \<and> m_RegExpr cat_engine \<noteq> NullRegex"
    using thrown by simp
  from thrown have t1: "''x+'' \<noteq> []"
    and t2: "bReCompile cat_engine (resolved_options faulting_matcher example_h example_doc 0 20 True 0)
          (effective_pattern ''x+'' False False)"
    and t3: "\<forall>r. onig_new faulting_matcher (effective_pattern ''x+'' False False)
          (resolved_options faulting_matcher example_h example_doc 0 20 True 0)
          (onigEncType (eolMode example_doc)) \<noteq> NewNormal r"
    by blast+
  from refused have r1: "''(abc'' \<noteq> []"
    and r2: "bReCompile cat_engine (resolved_options literal_matcher example_h example_doc 0 20 True 0)
          (effective_pattern ''(abc'' False False)"
    and r3: "\<forall>r. onig_new literal_matcher (effective_pattern ''(abc'' False False)
          (resolved_options literal_matcher example_h example_doc 0 20 True 0)
          (onigEncType (eolMode example_doc)) \<noteq> NewNormal r"
    by blast+
  note at_throw = failed_recompilation [OF run_faulting t1 t2 t3,
      unfolded find_result.simps if_P [OF was_live]]
  note at_refusal = failed_recompilation [OF run_refused_after_cat r1 r2 r3,
      unfolded find_result.simps if_not_P [OF not_thrown]]
  from at_throw
  have "\<forall>doc' minPos' maxPos' p' cs' w' ws' fl' len'. p' \<noteq> [] \<longrightarrow>
          FindText faulting_matcher example_h released_engine doc' minPos' maxPos' (Some p') cs' w' ws'
              fl' len'
            = Inl (if resolved_options faulting_matcher example_h doc' minPos' maxPos' cs' fl'
                        = resolved_options faulting_matcher example_h example_doc 0 20 True 0
                      \<and> effective_pattern p' w' ws' = effective_pattern ''x+'' False False
                   then UseAfterFree else DoubleFree)"
    by blast
  from this [rule_format, of "''dog''" example_doc 0 20 True False False 0 7]
  have twice: "FindText faulting_matcher example_h released_engine example_doc 0 20 (Some ''dog'') True
      False False 0 7 = Inl DoubleFree"
    by (simp add: effective_pattern_def)
  from at_refusal
  have "\<forall>doc' minPos' maxPos' p' cs' w' ws' fl' len' r' result b e groups.
             p' \<noteq> []
             \<and> onig_new literal_matcher (effective_pattern p' w' ws')
                  (resolved_options literal_matcher example_h doc' minPos' maxPos' cs' fl')
                  (onigEncType (eolMode doc'))
                 = NewNormal r'
             \<and> onig_search literal_matcher r' (bytes doc')
                  (if minPos' \<le> maxPos' then fst (search_range literal_matcher doc' minPos' maxPos')
                   else snd (search_range literal_matcher doc' minPos' maxPos'))
                  (if minPos' \<le> maxPos' then snd (search_range literal_matcher doc' minPos' maxPos')
                   else fst (search_range literal_matcher doc' minPos' maxPos'))
                  (resolved_options literal_matcher example_h doc' minPos' maxPos' cs' fl')
                 = SearchReturns result ((b, e) # groups)
             \<and> 0 \<le> result
             \<and> fst (search_range literal_matcher doc' minPos' maxPos')
                 \<le> snd (search_range literal_matcher doc' minPos' maxPos')
             \<longrightarrow>
             (\<exists>out'. FindText literal_matcher example_h refused_after_cat doc' minPos' maxPos' (Some p')
                        cs' w' ws' fl' len' = Inr out'
                \<and> find_return out' = b \<and> find_length out' = e - b
                \<and> m_RegExpr (find_engine out') = LiveRegex r'
                \<and> list_ex is_onig_new (find_calls out'))"
    by blast
  from this [rule_format, OF valid] run_faulting run_refused_after_cat thrown refused twice
  show ?thesis
    by simp
qed

subsection \<open>The return values of a find request\<close>

text \<open>Claim C1, amended. A find request that returns reports what happened by its last call
  of the matcher. No call at all (a null or empty pattern): \<open>-1\<close>, not found. A build that
  \<open>onig_new\<close> refused: \<open>-2\<close>, and a build during which an exception was thrown: \<open>-2\<close> as well,
  the same sentinel. A search that threw, or returned an error code below
  \<open>ONIG_MISMATCH\<close>: \<open>-3\<close>. A search that returned \<open>ONIG_MISMATCH\<close>, or a match with the ends of
  the range out of order: \<open>-1\<close>, with length 0. A match: the start of group 0, with its
  length. The three sentinels \<open>-1\<close>, \<open>-2\<close>, \<open>-3\<close> differ from each other, and a return value
  that is not negative is always the start of a match that the search reported.\<close>

theorem FindText_sentinels:
  assumes "FindText X K this doc minPos maxPos pattern cs w ws fl len = Inr out"
  shows "(find_calls out = [] \<longrightarrow> find_return out = -1 \<and> find_length out = 0)
       \<and> (find_calls out \<noteq> [] \<longrightarrow>
            (case last (find_calls out) of
               Call_onig_free reg \<Rightarrow> False
             | Call_onig_new s opts enc res \<Rightarrow>
                 (case res of
                    NewNormal r \<Rightarrow> False
                  | NewError code \<Rightarrow> find_return out = -2
                  | NewThrows \<Rightarrow> find_return out = -2)
             | Call_onig_search r start rng opts res \<Rightarrow>
                 (case res of
                    SearchThrows \<Rightarrow> find_return out = -3
                  | SearchReturns result region \<Rightarrow>
                      if result < ONIG_MISMATCH then find_return out = -3
                      else if 0 \<le> result \<and> fst (search_range X doc minPos maxPos)
                                            \<le> snd (search_range X doc minPos maxPos)
                      then (\<exists>e groups. region = (find_return out, e) # groups
                              \<and> find_length out = e - find_return out)
                      else find_return out = -1 \<and> find_length out = 0)))
       \<and> (0 \<le> find_return out \<longrightarrow>
            (\<exists>r start rng opts result e groups.
               find_calls out \<noteq> []
               \<and> last (find_calls out)
                   = Call_onig_search r start rng opts
                       (SearchReturns result ((find_return out, e) # groups))
               \<and> 0 \<le> result))"
proof (cases "pattern = None \<or> pattern = Some []")
  case True
  with assms show ?thesis
    by (auto simp: FindText_def c_str_def)
next
  case False
  then obtain p where p: "pattern = Some p" "p \<noteq> []" by auto
  let ?opts = "resolved_options X K doc minPos maxPos cs fl"
  let ?s = "effective_pattern p w ws"
  let ?rb = "fst (search_range X doc minPos maxPos)"
  let ?re = "snd (search_range X doc minPos maxPos)"
  have searched: ?thesis
    if stage: "search_stage X this' doc (minPos \<le> maxPos) ?rb ?re ?opts len before = Inr out"
    for this' before
  proof -
    from search_stage_Inr [OF stage] obtain r where r: "m_RegExpr this' = LiveRegex r"
      and calls: "find_calls out = before @ [search_call X r doc (minPos \<le> maxPos) ?rb ?re ?opts]"
      by blast
    show ?thesis
    proof (cases "onig_search X r (bytes doc) (if minPos \<le> maxPos then ?rb else ?re)
                    (if minPos \<le> maxPos then ?re else ?rb) ?opts")
      case SearchThrows
      from search_stage_throws [OF stage r SearchThrows] calls SearchThrows show ?thesis
        by (simp add: search_call_def)
    next
      case (SearchReturns result region)
      from search_stage_returns [OF stage r SearchReturns] calls SearchReturns show ?thesis
        by (auto simp: search_call_def ONIG_MISMATCH_def split: if_splits)
    qed
  qed
  show ?thesis
  proof (cases "bReCompile this ?opts ?s")
    case False
    with assms p have "search_stage X this doc (minPos \<le> maxPos) ?rb ?re ?opts len [] = Inr out"
      by (simp add: FindText_nonempty)
    then show ?thesis by (rule searched)
  next
    case True
    with assms p have rec: "recompile_and_search X this doc (minPos \<le> maxPos) ?rb ?re ?opts ?s len
        = Inr out"
      by (simp add: FindText_nonempty)
    show ?thesis
    proof (cases "onig_new X ?s ?opts (onigEncType (eolMode doc))")
      case (NewNormal r)
      from recompile_normal [OF rec NewNormal] show ?thesis by (rule searched)
    next
      case (NewError code)
      from recompile_error [OF rec NewError] show ?thesis by auto
    next
      case NewThrows
      with rec show ?thesis
        by (cases "m_RegExpr this") (auto simp: recompile_and_search_def onig_free_def Let_def)
    qed
  qed
qed

theorem FindText_sentinels_witness:
  "FindText literal_matcher example_h cat_engine example_doc 0 20 (Some ''dog'') True False False 0 7
     = Inr \<lparr> find_engine = \<lparr> m_RegExprStrg = ''dog'', m_CmplOptions = 64, m_RegExpr = LiveRegex ''dog'',
                              m_Region = [], m_ErrorInfo = [], m_MatchPos = -1, m_MatchLen = 0,
                              m_SubstBuffer = [] \<rparr>,
             find_return = -1, find_length = 0,
             find_calls = [Call_onig_free (LiveRegex ''cat''),
                           Call_onig_new ''dog'' 64 ONIG_ENCODING_UTF8 (NewNormal ''dog''),
                           Call_onig_search ''dog'' 0 20 64 (SearchReturns (-1) [])] \<rparr>
   \<and> FindText literal_matcher example_h new_engine example_doc 0 20 (Some ''(abc'') True False False 0 7
     = Inr \<lparr> find_engine = refused_engine, find_return = -2, find_length = 7,
             find_calls = [Call_onig_free NullRegex,
                           Call_onig_new ''(abc'' 64 ONIG_ENCODING_UTF8 (NewError (-117))] \<rparr>
   \<and> FindText failing_matcher example_h cat_engine example_doc 0 20 (Some ''cat'') True False False 0 7
     = Inr \<lparr> find_engine = cat_engine\<lparr>m_Region := [], m_ErrorInfo := ''error'', m_MatchPos := -1,
                                       m_MatchLen := 0\<rparr>,
             find_return = -3, find_length = 7,
             find_calls = [Call_onig_search ''cat'' 0 20 64 (SearchReturns (-15) [])] \<rparr>
   \<and> FindText literal_matcher example_h new_engine example_doc 0 20 (Some ''cat'') True False False 0 7
     = Inr \<lparr> find_engine = cat_engine, find_return = 3, find_length = 3,
             find_calls = [Call_onig_free NullRegex,
                           Call_onig_new ''cat'' 64 ONIG_ENCODING_UTF8 (NewNormal ''cat''),
                           Call_onig_search ''cat'' 0 20 64 (SearchReturns 3 [(3, 6)])] \<rparr>"
proof -
  note not_found = FindText_sentinels [OF run_dog, simplified find_result.simps]
  note invalid = FindText_sentinels [OF run_refused, simplified find_result.simps]
  note failure = FindText_sentinels [OF run_failing, simplified find_result.simps]
  note found = FindText_sentinels [OF run_cat, simplified find_result.simps]
  from not_found invalid failure found run_dog run_refused run_failing run_cat show ?thesis
    by simp
qed

text \<open>Claim C1 as stated fails: a build that throws is reported with \<open>-2\<close>, the value that
  reports a pattern syntax error, not with a sentinel different from it.\<close>

theorem FindText_compile_exception_counterexample:
  "FindText throwing_matcher example_h new_engine example_doc 0 20 (Some ''abc'') True False False 0 7
     = Inr \<lparr> find_engine = new_engine\<lparr>m_RegExprStrg := ''abc'', m_CmplOptions := 64\<rparr>,
             find_return = -2, find_length = 7,
             find_calls = [Call_onig_free NullRegex,
                           Call_onig_new ''abc'' 64 ONIG_ENCODING_UTF8 NewThrows] \<rparr>
   \<and> FindText literal_matcher example_h new_engine example_doc 0 20 (Some ''(abc'') True False False 0 7
     = Inr \<lparr> find_engine = refused_engine, find_return = -2, find_length = 7,
             find_calls = [Call_onig_free NullRegex,
                           Call_onig_new ''(abc'' 64 ONIG_ENCODING_UTF8 (NewError (-117))] \<rparr>"
  using run_throws run_refused by simp

subsection \<open>The stored match\<close>

text \<open>Claim C10. A find request with a null or empty pattern returns with the engine untouched
  (match position, match length, region and compiled-pattern cache as they were), so that a
  substitution after it gives what it would have given before. And after every find request
  whose last call of the matcher is a search, the stored match position and length are
  those of the match this search reported, and otherwise the not-found sentinel and 0,
  whatever was stored before: they are reset before the search.\<close>

theorem FindText_stored_match:
  "(pattern = None \<or> pattern = Some [] \<longrightarrow>
      (\<exists>out. FindText X K this doc minPos maxPos pattern cs w ws fl len = Inr out
         \<and> find_engine out = this
         \<and> SubstituteByPosition X (find_engine out) doc template = SubstituteByPosition X this doc template))
   \<and> (\<forall>out r start rng opts res.
        FindText X K this doc minPos maxPos pattern cs w ws fl len = Inr out
        \<and> find_calls out \<noteq> []
        \<and> last (find_calls out) = Call_onig_search r start rng opts res
        \<longrightarrow>
        (m_MatchPos (find_engine out), m_MatchLen (find_engine out)) =
          (case res of
             SearchThrows \<Rightarrow> (ONIG_MISMATCH, 0)
           | SearchReturns result region \<Rightarrow>
               (case region of
                  [] \<Rightarrow> (ONIG_MISMATCH, 0)
                | (beg0, end0) # groups \<Rightarrow>
                    if 0 \<le> result \<and> fst (search_range X doc minPos maxPos)
                                       \<le> snd (search_range X doc minPos maxPos)
                    then (beg0, end0 - beg0) else (ONIG_MISMATCH, 0))))"
proof (intro conjI impI allI)
  assume "pattern = None \<or> pattern = Some []"
  then show "\<exists>out. FindText X K this doc minPos maxPos pattern cs w ws fl len = Inr out
         \<and> find_engine out = this
         \<and> SubstituteByPosition X (find_engine out) doc template = SubstituteByPosition X this doc template"
    by (auto simp: FindText_def c_str_def)
next
  fix out r start rng opts res
  assume run: "FindText X K this doc minPos maxPos pattern cs w ws fl len = Inr out
        \<and> find_calls out \<noteq> []
        \<and> last (find_calls out) = Call_onig_search r start rng opts res"
  have nonempty: "\<not> (pattern = None \<or> pattern = Some [])"
  proof
    assume "pattern = None \<or> pattern = Some []"
    then have "FindText X K this doc minPos maxPos pattern cs w ws fl len
        = Inr \<lparr> find_engine = this, find_return = -1, find_length = 0, find_calls = [] \<rparr>"
      by (auto simp: FindText_def c_str_def)
    with run show False by auto
  qed
  then obtain p where p: "pattern = Some p" "p \<noteq> []" by auto
  let ?opts = "resolved_options X K doc minPos maxPos cs fl"
  let ?s = "effective_pattern p w ws"
  let ?rb = "fst (search_range X doc minPos maxPos)"
  let ?re = "snd (search_range X doc minPos maxPos)"
  let ?goal = "(m_MatchPos (find_engine out), m_MatchLen (find_engine out)) =
          (case res of
             SearchThrows \<Rightarrow> (ONIG_MISMATCH, 0)
           | SearchReturns result region \<Rightarrow>
               (case region of
                  [] \<Rightarrow> (ONIG_MISMATCH, 0)
                | (beg0, end0) # groups \<Rightarrow>
                    if 0 \<le> result \<and> ?rb \<le> ?re
                    then (beg0, end0 - beg0) else (ONIG_MISMATCH, 0)))"
  have searched: ?goal
    if stage: "search_stage X this' doc (minPos \<le> maxPos) ?rb ?re ?opts len before = Inr out"
    for this' before
  proof -
    from search_stage_Inr [OF stage] obtain r' where r': "m_RegExpr this' = LiveRegex r'"
      and calls: "find_calls out = before @ [search_call X r' doc (minPos \<le> maxPos) ?rb ?re ?opts]"
      by blast
    with run have res: "onig_search X r' (bytes doc) (if minPos \<le> maxPos then ?rb else ?re)
                    (if minPos \<le> maxPos then ?re else ?rb) ?opts = res"
      by (auto simp: search_call_def)
    show ?goal
    proof (cases res)
      case SearchThrows
      with search_stage_throws [OF stage r'] res show ?thesis by simp
    next
      case (SearchReturns result region)
      with search_stage_returns [OF stage r', of result region] res show ?thesis
        by (cases region) (auto simp: ONIG_MISMATCH_def split: if_splits)
    qed
  qed
  show ?goal
  proof (cases "bReCompile this ?opts ?s")
    case False
    with run p have "search_stage X this doc (minPos \<le> maxPos) ?rb ?re ?opts len [] = Inr out"
      by (simp add: FindText_nonempty)
    then show ?thesis by (rule searched)
  next
    case True
    with run p have rec: "recompile_and_search X this doc (minPos \<le> maxPos) ?rb ?re ?opts ?s len
        = Inr out"
      by (simp add: FindText_nonempty)
    show ?thesis
    proof (cases "onig_new X ?s ?opts (onigEncType (eolMode doc))")
      case (NewNormal r)
      from recompile_normal [OF rec NewNormal] show ?thesis by (rule searched)
    next
      case (NewError code)
      from recompile_error [OF rec NewError] run show ?thesis by auto
    next
      case NewThrows
      with rec run show ?thesis
        by (cases "m_RegExpr this") (auto simp: recompile_and_search_def onig_free_def Let_def)
    qed
  qed
qed

theorem FindText_stored_match_witness:
  "FindText literal_matcher example_h cat_engine example_doc 0 20 (Some []) True False False 0 7
     = Inr \<lparr> find_engine = cat_engine, find_return = -1, find_length = 0, find_calls = [] \<rparr>
   \<and> SubstituteByPosition literal_matcher cat_engine example_doc ''<$0>''
     = Inr \<lparr> subst_engine = cat_engine\<lparr>m_SubstBuffer := ''<cat>''\<rparr>,
             subst_return = Some ''<cat>'', subst_length = 5 \<rparr>
   \<and> m_MatchPos cat_engine = 3 \<and> m_MatchLen cat_engine = 3
   \<and> FindText literal_matcher example_h cat_engine example_doc 0 20 (Some ''dog'') True False False 0 7
     = Inr \<lparr> find_engine = \<lparr> m_RegExprStrg = ''dog'', m_CmplOptions = 64, m_RegExpr = LiveRegex ''dog'',
                              m_Region = [], m_ErrorInfo = [], m_MatchPos = -1, m_MatchLen = 0,
                              m_SubstBuffer = [] \<rparr>,
             find_return = -1, find_length = 0,
             find_calls = [Call_onig_free (LiveRegex ''cat''),
                           Call_onig_new ''dog'' 64 ONIG_ENCODING_UTF8 (NewNormal ''dog''),
                           Call_onig_search ''dog'' 0 20 64 (SearchReturns (-1) [])] \<rparr>"
proof -
  note empty = FindText_stored_match [where pattern = "Some []" and X = literal_matcher
      and K = example_h and this = cat_engine and doc = example_doc and minPos = 0 and maxPos = 20
      and cs = True and w = False and ws = False and fl = 0 and len = 7 and template = "''<$0>''",
      THEN conjunct1]
  note dog = FindText_stored_match [where pattern = "Some ''dog''" and X = literal_matcher
      and K = example_h and this = cat_engine and doc = example_doc and minPos = 0 and maxPos = 20
      and cs = True and w = False and ws = False and fl = 0 and len = 7 and template = "''<$0>''",
      THEN conjunct2, rule_format, of _ "''dog''" 0 20 64 "SearchReturns (-1) []"]
  have "Some [] = None \<or> Some [] = Some ([] :: string)" by simp
  with empty obtain out where
    "FindText literal_matcher example_h cat_engine example_doc 0 20 (Some []) True False False 0 7
       = Inr out" and "find_engine out = cat_engine"
    by blast
  moreover from dog [of "\<lparr> find_engine = \<lparr> m_RegExprStrg = ''dog'', m_CmplOptions = 64,
                              m_RegExpr = LiveRegex ''dog'',
                              m_Region = [], m_ErrorInfo = [], m_MatchPos = -1, m_MatchLen = 0,
                              m_SubstBuffer = [] \<rparr>,
             find_return = -1, find_length = 0,
             find_calls = [Call_onig_free (LiveRegex ''cat''),
                           Call_onig_new ''dog'' 64 ONIG_ENCODING_UTF8 (NewNormal ''dog''),
                           Call_onig_search ''dog'' 0 20 64 (SearchReturns (-1) [])] \<rparr>"] run_dog
  have "((-1::int), (0::int)) = (ONIG_MISMATCH, 0)" by simp
  ultimately show ?thesis
    using run_empty run_dog subst_cat by (simp add: cat_engine_def)
qed

subsection \<open>The replacement expander\<close>

lemma append_group_in_document:
  assumes "g < length region" and "group_in_document doc (region ! g)"
  shows "append_group doc region (int g) buf = Inr (buf @ group_bytes doc (region ! g))"
  using assms
  by (auto simp: append_group_def append_range_def group_in_document_def group_bytes_def Let_def)

lemma loop_step:
  "j < length raw \<Longrightarrow>
   SubstituteByPosition_loop X reg region doc raw j buf =
     (case SubstituteByPosition_body X reg region doc raw j buf of
        Inl f \<Rightarrow> Inl f
      | Inr r \<Rightarrow> SubstituteByPosition_loop X reg region doc raw (fst r) (snd r))"
  by (subst SubstituteByPosition_loop.simps) simp

lemma loop_end:
  "\<not> j < length raw \<Longrightarrow> SubstituteByPosition_loop X reg region doc raw j buf = Inr buf"
  by (subst SubstituteByPosition_loop.simps) simp

lemma positional_step:
  assumes "j < length raw" and "at raw j = CHR ''$'' \<or> at raw j = BSL"
    and "is_digit (at raw (j + 1))"
  shows "SubstituteByPosition_loop X reg region doc raw j buf =
       (let digit2nd = (is_digit (at raw (j + 2)) \<and> 10 < num_regs region);
            grpNum = (if digit2nd
                      then digit_val (at raw (j + 1)) * 10 + digit_val (at raw (j + 2))
                      else digit_val (at raw (j + 1)));
            after = j + (if digit2nd then 3 else 2)
        in if grpNum < num_regs region
           then (case append_group doc region grpNum buf of
                   Inl f \<Rightarrow> Inl f
                 | Inr buf' \<Rightarrow> SubstituteByPosition_loop X reg region doc raw after buf')
           else SubstituteByPosition_loop X reg region doc raw after buf)"
  using assms
  by (auto simp: loop_step SubstituteByPosition_body_def Let_def numeral_3_eq_3 split: sum.splits)

lemmas subst_eval =
  SubstituteByPosition_def convertReplExpr_def convertReplExpr_loop.simps convertReplExpr_body_def
  loop_step loop_end SubstituteByPosition_body_def at_def is_digit_def digit_val_def num_regs_def
  name_start_def Let_def

lemma template_two_groups:
  assumes "0 \<le> m_MatchPos this" and "m_Region this = [g0, g1, g2]"
    and "group_in_document doc g1" and "group_in_document doc g2"
  shows "SubstituteByPosition X this doc ''[$1-$2]''
     = Inr \<lparr> subst_engine = this\<lparr>m_SubstBuffer :=
                 ''['' @ group_bytes doc g1 @ ''-'' @ group_bytes doc g2 @ '']''\<rparr>,
             subst_return = Some (''['' @ group_bytes doc g1 @ ''-'' @ group_bytes doc g2 @ '']''),
             subst_length = int (length (''['' @ group_bytes doc g1 @ ''-'' @ group_bytes doc g2 @ '']'')) \<rparr>"
proof -
  have g1: "append_group doc [g0, g1, g2] 1 buf = Inr (buf @ group_bytes doc g1)" for buf
    using append_group_in_document [of 1 "[g0, g1, g2]" doc buf] assms(3) by simp
  have g2: "append_group doc [g0, g1, g2] 2 buf = Inr (buf @ group_bytes doc g2)" for buf
    using append_group_in_document [of 2 "[g0, g1, g2]" doc buf] assms(4) by simp
  show ?thesis
    using assms(1,2) by (simp add: subst_eval g1 g2)
qed

lemma template_escaped_dollar:
  assumes "0 \<le> m_MatchPos this"
  shows "SubstituteByPosition X this doc [BSL, CHR ''$'']
     = Inr \<lparr> subst_engine = this\<lparr>m_SubstBuffer := ''$''\<rparr>, subst_return = Some ''$'',
             subst_length = 1 \<rparr>"
  using assms by (simp add: subst_eval)

lemma template_two_dollars:
  assumes "0 \<le> m_MatchPos this"
  shows "SubstituteByPosition X this doc ''$$''
     = Inr \<lparr> subst_engine = this\<lparr>m_SubstBuffer := ''$$''\<rparr>, subst_return = Some ''$$'',
             subst_length = 2 \<rparr>"
  using assms by (simp add: subst_eval)

lemma template_two_backslashes:
  assumes "0 \<le> m_MatchPos this"
  shows "SubstituteByPosition X this doc [BSL, BSL]
     = Inr \<lparr> subst_engine = this\<lparr>m_SubstBuffer := [BSL]\<rparr>, subst_return = Some [BSL],
             subst_length = 1 \<rparr>"
  using assms by (simp add: subst_eval)

text \<open>Claim C7, amended. In the expansion loop, at a \<open>$\<close> or a backslash that a digit follows,
  the token is a positional group reference. It has two digits only when a second digit
  follows and the region holds more than 10 groups, and one digit otherwise. When the group
  number is below the number of groups of the region, the bytes of that group are appended
  (none for a group that did not take part); otherwise nothing is appended; the scan goes
  on behind the digits. The bytes appended for a group in the document are its document
  byte range. In particular the template \<open>[$1-$2]\<close> on a match with two groups gives \<open>[\<close>,
  group 1, \<open>-\<close>, group 2, \<open>]\<close>; the templates \<open>\$\<close> and \<open>\\\<close> give a single \<open>$\<close> and a single
  backslash; and the template \<open>$$\<close> gives \<open>$$\<close>, both dollar signs.\<close>

theorem positional_references:
  "(j < length raw \<and> (at raw j = CHR ''$'' \<or> at raw j = BSL) \<and> is_digit (at raw (j + 1)) \<longrightarrow>
      SubstituteByPosition_loop X reg region doc raw j buf =
        (let digit2nd = (is_digit (at raw (j + 2)) \<and> 10 < num_regs region);
             grpNum = (if digit2nd
                       then digit_val (at raw (j + 1)) * 10 + digit_val (at raw (j + 2))
                       else digit_val (at raw (j + 1)));
             after = j + (if digit2nd then 3 else 2)
         in if grpNum < num_regs region
            then (case append_group doc region grpNum buf of
                    Inl f \<Rightarrow> Inl f
                  | Inr buf' \<Rightarrow> SubstituteByPosition_loop X reg region doc raw after buf')
            else SubstituteByPosition_loop X reg region doc raw after buf))
   \<and> (g < length region \<and> group_in_document doc (region ! g) \<longrightarrow>
        append_group doc region (int g) buf = Inr (buf @ group_bytes doc (region ! g)))
   \<and> (0 \<le> m_MatchPos this \<and> m_Region this = [g0, g1, g2]
        \<and> group_in_document doc g1 \<and> group_in_document doc g2 \<longrightarrow>
        SubstituteByPosition X this doc ''[$1-$2]''
          = Inr \<lparr> subst_engine = this\<lparr>m_SubstBuffer :=
                      ''['' @ group_bytes doc g1 @ ''-'' @ group_bytes doc g2 @ '']''\<rparr>,
                  subst_return = Some (''['' @ group_bytes doc g1 @ ''-'' @ group_bytes doc g2 @ '']''),
                  subst_length =
                    int (length (''['' @ group_bytes doc g1 @ ''-'' @ group_bytes doc g2 @ '']'')) \<rparr>)
   \<and> (0 \<le> m_MatchPos this \<longrightarrow>
        SubstituteByPosition X this doc [BSL, CHR ''$'']
          = Inr \<lparr> subst_engine = this\<lparr>m_SubstBuffer := ''$''\<rparr>, subst_return = Some ''$'',
                  subst_length = 1 \<rparr>
        \<and> SubstituteByPosition X this doc [BSL, BSL]
          = Inr \<lparr> subst_engine = this\<lparr>m_SubstBuffer := [BSL]\<rparr>, subst_return = Some [BSL],
                  subst_length = 1 \<rparr>
        \<and> SubstituteByPosition X this doc ''$$''
          = Inr \<lparr> subst_engine = this\<lparr>m_SubstBuffer := ''$$''\<rparr>, subst_return = Some ''$$'',
                  subst_length = 2 \<rparr>)"
  using positional_step [of j raw X reg region doc buf]
    append_group_in_document [of g region doc buf]
    template_two_groups [of this g0 g1 g2 doc X]
    template_escaped_dollar [of this X doc] template_two_backslashes [of this X doc]
    template_two_dollars [of this X doc]
  by blast

theorem positional_references_witness:
  "SubstituteByPosition_loop literal_matcher (m_RegExpr groups_engine) (m_Region groups_engine)
      example_doc ''$12'' 0 [] = Inr ''co2''
   \<and> group_in_document example_doc (0, 2) \<and> group_in_document example_doc (3, 5)
   \<and> SubstituteByPosition literal_matcher groups_engine example_doc ''[$1-$2]''
       = Inr \<lparr> subst_engine = groups_engine\<lparr>m_SubstBuffer := ''[co-ca]''\<rparr>,
               subst_return = Some ''[co-ca]'', subst_length = 7 \<rparr>
   \<and> SubstituteByPosition literal_matcher groups_engine example_doc [BSL, CHR ''$'']
       = Inr \<lparr> subst_engine = groups_engine\<lparr>m_SubstBuffer := ''$''\<rparr>, subst_return = Some ''$'',
               subst_length = 1 \<rparr>"
proof -
  note claim = positional_references [where X = literal_matcher and this = groups_engine
      and doc = example_doc and reg = "m_RegExpr groups_engine" and region = "m_Region groups_engine"
      and raw = "''$12''" and j = 0 and buf = "[]" and g = 1
      and ?g0.0 = "(0, 5)" and ?g1.0 = "(0, 2)" and ?g2.0 = "(3, 5)"]
  have in_doc: "group_in_document example_doc (0, 2) \<and> group_in_document example_doc (3, 5)"
    by (simp add: group_in_document_def example_doc_def Length_def)
  have matched: "0 \<le> m_MatchPos groups_engine \<and> m_Region groups_engine = [(0, 5), (0, 2), (3, 5)]"
    by (simp add: groups_engine_def)
  have bytes: "group_bytes example_doc (0, 2) = ''co'' \<and> group_bytes example_doc (3, 5) = ''ca''"
    by (simp add: group_bytes_def example_doc_def)
  have ref: "(0::nat) < length ''$12'' \<and> (at ''$12'' 0 = CHR ''$'' \<or> at ''$12'' 0 = BSL)
      \<and> is_digit (at ''$12'' (0 + 1))"
    by (simp add: at_def is_digit_def)
  from claim ref have step: "SubstituteByPosition_loop literal_matcher (m_RegExpr groups_engine)
      (m_Region groups_engine) example_doc ''$12'' 0 [] =
        (let digit2nd = (is_digit (at ''$12'' (0 + 2)) \<and> 10 < num_regs (m_Region groups_engine));
             grpNum = (if digit2nd
                       then digit_val (at ''$12'' (0 + 1)) * 10 + digit_val (at ''$12'' (0 + 2))
                       else digit_val (at ''$12'' (0 + 1)));
             after = 0 + (if digit2nd then 3 else 2)
         in if grpNum < num_regs (m_Region groups_engine)
            then (case append_group example_doc (m_Region groups_engine) grpNum [] of
                    Inl f \<Rightarrow> Inl f
                  | Inr buf' \<Rightarrow> SubstituteByPosition_loop literal_matcher (m_RegExpr groups_engine)
                      (m_Region groups_engine) example_doc ''$12'' after buf')
            else SubstituteByPosition_loop literal_matcher (m_RegExpr groups_engine)
                   (m_Region groups_engine) example_doc ''$12'' after [])"
    by blast
  have first: "SubstituteByPosition_loop literal_matcher (m_RegExpr groups_engine)
      (m_Region groups_engine) example_doc ''$12'' 0 [] = Inr ''co2''"
    by (simp add: step) (simp add: subst_eval groups_engine_def append_group_def append_range_def
        example_doc_def Length_def)
  from claim in_doc matched bytes first show ?thesis
    by simp
qed

text \<open>Claim C7 as stated fails: the template \<open>$$\<close> does not give a single \<open>$\<close>. The branch
  that drops an escaping character is reached only from a backslash.\<close>

theorem two_dollars_counterexample:
  "0 \<le> m_MatchPos groups_engine
   \<and> SubstituteByPosition literal_matcher groups_engine example_doc ''$$''
       = Inr \<lparr> subst_engine = groups_engine\<lparr>m_SubstBuffer := ''$$''\<rparr>, subst_return = Some ''$$'',
               subst_length = 2 \<rparr>
   \<and> Some ''$$'' \<noteq> Some ''$''"
proof -
  have matched: "0 \<le> m_MatchPos groups_engine" by (simp add: groups_engine_def)
  from matched template_two_dollars [OF matched, of literal_matcher example_doc] show ?thesis
    by simp
qed

text \<open>What the body of the loop of \<open>convertReplExpr\<close> does at a backslash, by the byte \<open>ch\<close>
  that follows it.\<close>

lemma convertReplExpr_body_escapes:
  assumes "at replStr i = BSL" and "at replStr (i + 1) = ch"
  shows "49 \<le> (of_char ch :: nat) \<and> (of_char ch :: nat) \<le> 57
           \<Longrightarrow> convertReplExpr_body X replStr i = (i + 2, [CHR ''$'', ch])"
    and "ch = CHR ''a'' \<Longrightarrow> convertReplExpr_body X replStr i = (i + 2, [CHR 0x07])"
    and "ch = CHR ''b'' \<Longrightarrow> convertReplExpr_body X replStr i = (i + 2, [CHR 0x1B])"
    and "ch = CHR ''f'' \<Longrightarrow> convertReplExpr_body X replStr i = (i + 2, [CHR 0x0C])"
    and "ch = CHR ''n'' \<Longrightarrow> convertReplExpr_body X replStr i = (i + 2, [CHR 0x0A])"
    and "ch = CHR ''r'' \<Longrightarrow> convertReplExpr_body X replStr i = (i + 2, [CHR 0x0D])"
    and "ch = CHR ''t'' \<Longrightarrow> convertReplExpr_body X replStr i = (i + 2, [CHR 0x09])"
    and "ch = CHR ''v'' \<Longrightarrow> convertReplExpr_body X replStr i = (i + 2, [CHR 0x0B])"
    and "ch = BSL \<Longrightarrow> convertReplExpr_body X replStr i = (i + 2, [BSL, BSL])"
    and "(ch = CHR ''x'' \<or> ch = CHR ''u'') \<and> GetHexDigit (at replStr (i + 2)) < 0
           \<Longrightarrow> convertReplExpr_body X replStr i = (i + 3, [ch])"
  using assms
  by (auto simp: convertReplExpr_body_def hex_escape_def Let_def numeral_3_eq_3)

text \<open>Claim C8 against the code: the escape \<open>\b\<close> does not become the backspace byte \<open>0x08\<close>
  but the byte \<open>0x1B\<close>, while \<open>\n\<close> becomes the newline byte; and the byte that follows a
  \<open>\x\<close> escape is skipped, so that the backslash of a following \<open>\n\<close> is lost.\<close>

theorem convertReplExpr_backslash_b:
  "convertReplExpr X [BSL, CHR ''b''] = [CHR 0x1B]
   \<and> convertReplExpr X [BSL, CHR ''b''] \<noteq> [CHR 0x08]
   \<and> convertReplExpr X [BSL, CHR ''n''] = [CHR 0x0A]
   \<and> convertReplExpr X ([BSL] @ ''x41'' @ [BSL] @ ''n'') = wide_char_bytes X 65 @ ''n''"
  by (simp add: convertReplExpr_def convertReplExpr_loop.simps convertReplExpr_body_def at_def
      hex_escape_def GetHexDigit_def Let_def)

theorem convertReplExpr_backslash_b_witness:
  "convertReplExpr literal_matcher [BSL, CHR ''b''] = [CHR 0x1B]
   \<and> convertReplExpr literal_matcher ([BSL] @ ''x41'' @ [BSL] @ ''n'') = ''An''"
proof -
  have "char_of (65 :: nat) = CHR ''A''" by code_simp
  then have "wide_char_bytes literal_matcher 65 = ''A''"
    by (simp add: wide_char_bytes_def literal_matcher_def)
  with convertReplExpr_backslash_b [of literal_matcher] show ?thesis
    by simp
qed

end
